theory Spec2Isabelle
  imports Complex_Main
begin

section \<open>GreenCart Logistics: the simulation and costing engine\<close>

text \<open>
  A shallow embedding of \<^verbatim>\<open>SimulationService\<close> (the backend's simulation service) and
  of the route handler that validates a simulation request.

  JavaScript numbers are IEEE 754 doubles. A finite double is modelled by the rational it
  denotes, and every arithmetic operation of the program is the exact operation followed
  by the rounding of its result to the nearest double (ties to even, overflow to the
  infinities, gradual underflow). The three non-finite values are values of the model,
  and the numbers of the tables and of a request are values of the same type; a decimal
  such as 551.05 in a table is the double \<open>lit (55105 / 100)\<close>.
  The sign of zero is not modelled: it shows only in a division by zero, and every
  divisor of the program that can be zero is a positive zero (a shift length of the
  tables, or a sum that is not a sum of two negative zeros). Strings are ASCII strings.
\<close>

subsection \<open>Doubles\<close>

datatype number = Fin rat | PInf | NInf | NaN

definition pow2 :: "int \<Rightarrow> rat" where
  "pow2 e = (if 0 \<le> e then 2 ^ nat e else 1 / 2 ^ nat (- e))"

text \<open>The number of binary digits of a positive integer.\<close>

function bitLength :: "int \<Rightarrow> int" where
  "bitLength n = (if n \<le> 0 then 0 else 1 + bitLength (n div 2))"
  by pat_completeness auto
termination
  by (relation "measure nat") auto

text \<open>The quotient of two positive integers, rounded to the nearest integer, ties to even.\<close>

definition round_half_even_div :: "int \<Rightarrow> int \<Rightarrow> int" where
  "round_half_even_div num den =
     (let f = num div den; r2 = 2 * (num mod den)
      in if r2 < den then f else if den < r2 then f + 1 else if even f then f else f + 1)"

text \<open>
  The double nearest to a rational \<open>x = a / b\<close>. \<open>floorLog2 n b\<close> is the integer part
  of the binary logarithm of \<open>n / b\<close>. With \<open>fl\<close> that of \<open>\<bar>x\<bar>\<close>, the doubles around
  \<open>x\<close> are the multiples of \<open>2 ^ e\<close> for \<open>e = max (-1074) (fl - 52)\<close> (\<open>ulpExponent\<close>), and the result is
  \<open>m * 2 ^ e\<close> for the integer \<open>m\<close> nearest to \<open>\<bar>x\<bar> / 2 ^ e\<close>, ties to the even one
  (\<open>scaledRound\<close>). The largest double is \<open>(2 ^ 53 - 1) * 2 ^ 971\<close>; what rounds beyond it
  is an infinity.
\<close>

definition floorLog2 :: "int \<Rightarrow> int \<Rightarrow> int" where
  "floorLog2 n b =
     (let k = bitLength n - bitLength b
      in if (if 0 \<le> k then b * 2 ^ nat k \<le> n else b \<le> n * 2 ^ nat (- k)) then k else k - 1)"

definition scaledRound :: "int \<Rightarrow> int \<Rightarrow> int \<Rightarrow> int" where
  "scaledRound n b e =
     (if 0 \<le> e then round_half_even_div n (b * 2 ^ nat e)
      else round_half_even_div (n * 2 ^ nat (- e)) b)"

definition ulpExponent :: "int \<Rightarrow> int \<Rightarrow> int" where
  "ulpExponent n b = max (- 1074) (floorLog2 n b - 52)"

definition round64 :: "rat \<Rightarrow> number" where
  "round64 x =
     (case quotient_of x of (a, b) \<Rightarrow>
        if a = 0 then Fin 0
        else
          let n = \<bar>a\<bar>;
              e = ulpExponent n b;
              m = scaledRound n b e
          in if 971 < e \<or> (e = 971 \<and> m = 2 ^ 53) then (if a < 0 then NInf else PInf)
             else Fin (if a < 0 then - (of_int m * pow2 e) else of_int m * pow2 e))"

text \<open>The double that a decimal literal of the source denotes, such as \<^verbatim>\<open>1.2\<close> or \<^verbatim>\<open>0.1\<close>.\<close>

definition lit :: "rat \<Rightarrow> number" where
  "lit x = round64 x"

fun num_neg :: "number \<Rightarrow> number" where
  "num_neg (Fin a) = Fin (- a)"
| "num_neg PInf = NInf"
| "num_neg NInf = PInf"
| "num_neg NaN = NaN"

fun num_add :: "number \<Rightarrow> number \<Rightarrow> number" where
  "num_add (Fin a) (Fin b) = round64 (a + b)"
| "num_add NaN _ = NaN"
| "num_add _ NaN = NaN"
| "num_add PInf NInf = NaN"
| "num_add NInf PInf = NaN"
| "num_add PInf _ = PInf"
| "num_add _ PInf = PInf"
| "num_add NInf _ = NInf"
| "num_add _ NInf = NInf"

definition num_sub :: "number \<Rightarrow> number \<Rightarrow> number" where
  "num_sub a b = num_add a (num_neg b)"

text \<open>The sign of a number; \<open>None\<close> for NaN.\<close>

fun num_sign :: "number \<Rightarrow> int option" where
  "num_sign (Fin a) = Some (if a < 0 then - 1 else if a = 0 then 0 else 1)"
| "num_sign PInf = Some 1"
| "num_sign NInf = Some (- 1)"
| "num_sign NaN = None"

definition signed_inf :: "int \<Rightarrow> number" where
  "signed_inf s = (if s = 0 then NaN else if 0 < s then PInf else NInf)"

fun num_mul :: "number \<Rightarrow> number \<Rightarrow> number" where
  "num_mul (Fin a) (Fin b) = round64 (a * b)"
| "num_mul a b =
     (case (num_sign a, num_sign b) of
        (Some s, Some t) \<Rightarrow> signed_inf (s * t)
      | _ \<Rightarrow> NaN)"

text \<open>
  Division. A non-zero number divided by (positive) zero is the infinity of the
  dividend's sign, and zero by zero is NaN.
\<close>

fun num_div :: "number \<Rightarrow> number \<Rightarrow> number" where
  "num_div (Fin a) (Fin b) =
     (if b = 0 then signed_inf (if a < 0 then - 1 else if a = 0 then 0 else 1)
      else round64 (a / b))"
| "num_div NaN _ = NaN"
| "num_div _ NaN = NaN"
| "num_div (Fin a) _ = Fin 0"
| "num_div PInf (Fin b) = (if b < 0 then NInf else PInf)"
| "num_div NInf (Fin b) = (if b < 0 then PInf else NInf)"
| "num_div _ _ = NaN"

text \<open>
  The remainder \<^verbatim>\<open>a % b\<close>: it has the sign of the dividend, and is exact for finite
  operands.
\<close>

definition truncate_rat :: "rat \<Rightarrow> int" where
  "truncate_rat x = (if 0 \<le> x then \<lfloor>x\<rfloor> else \<lceil>x\<rceil>)"

fun num_rem :: "number \<Rightarrow> number \<Rightarrow> number" where
  "num_rem (Fin a) (Fin b) = (if b = 0 then NaN else Fin (a - b * of_int (truncate_rat (a / b))))"
| "num_rem NaN _ = NaN"
| "num_rem _ NaN = NaN"
| "num_rem (Fin a) _ = Fin a"
| "num_rem _ _ = NaN"

fun num_le :: "number \<Rightarrow> number \<Rightarrow> bool" where
  "num_le (Fin a) (Fin b) = (a \<le> b)"
| "num_le NaN _ = False"
| "num_le _ NaN = False"
| "num_le NInf _ = True"
| "num_le _ PInf = True"
| "num_le _ _ = False"

fun num_lt :: "number \<Rightarrow> number \<Rightarrow> bool" where
  "num_lt (Fin a) (Fin b) = (a < b)"
| "num_lt NaN _ = False"
| "num_lt _ NaN = False"
| "num_lt PInf _ = False"
| "num_lt _ NInf = False"
| "num_lt _ _ = True"

text \<open>\<^verbatim>\<open>Math.min\<close> and \<^verbatim>\<open>Math.abs\<close>.\<close>

fun num_min :: "number \<Rightarrow> number \<Rightarrow> number" where
  "num_min NaN _ = NaN"
| "num_min _ NaN = NaN"
| "num_min a b = (if num_le a b then a else b)"

fun num_abs :: "number \<Rightarrow> number" where
  "num_abs (Fin a) = Fin \<bar>a\<bar>"
| "num_abs NaN = NaN"
| "num_abs _ = PInf"

text \<open>The numbers that a condition takes for false: zero and NaN.\<close>

definition falsy :: "number \<Rightarrow> bool" where
  "falsy x = (x = Fin 0 \<or> x = NaN)"

text \<open>\<^verbatim>\<open>x || 0\<close> on an optional number: undefined, NaN and zero are falsy.\<close>

fun or_zero :: "number option \<Rightarrow> number" where
  "or_zero None = Fin 0"
| "or_zero (Some NaN) = Fin 0"
| "or_zero (Some x) = x"

subsection \<open>Strings and the built-in conversions\<close>

definition isDigit :: "char \<Rightarrow> bool" where
  "isDigit c = (c \<in> set ''0123456789'')"

definition isHexDigit :: "char \<Rightarrow> bool" where
  "isHexDigit c = (c \<in> set ''0123456789abcdefABCDEF'')"

definition isStrWhiteSpaceChar :: "char \<Rightarrow> bool" where
  "isStrWhiteSpaceChar c = (c \<in> set [CHR 0x09, CHR 0x0A, CHR 0x0B, CHR 0x0C, CHR 0x0D, CHR 0x20])"

definition digitVal :: "char \<Rightarrow> int" where
  "digitVal c =
     (if isDigit c then of_char c - 48
      else if c \<in> set ''abcdef'' then of_char c - 87
      else of_char c - 55)"

definition radixValue :: "int \<Rightarrow> string \<Rightarrow> int" where
  "radixValue b s = foldl (\<lambda>a c. a * b + digitVal c) 0 s"

definition trimString :: "string \<Rightarrow> string" where
  "trimString s = rev (dropWhile isStrWhiteSpaceChar (rev (dropWhile isStrWhiteSpaceChar s)))"

text \<open>The exponent part of a decimal literal: absent, or \<^verbatim>\<open>e\<close> with an optional sign and digits.\<close>

fun exponentPart :: "string \<Rightarrow> int option" where
  "exponentPart [] = Some 0"
| "exponentPart (c # r) =
     (if c = CHR ''e'' \<or> c = CHR ''E'' then
        (case r of
           [] \<Rightarrow> None
         | s # ds \<Rightarrow>
             if s = CHR ''+'' \<or> s = CHR ''-'' then
               (if ds \<noteq> [] \<and> list_all isDigit ds
                then Some ((if s = CHR ''-'' then - 1 else 1) * radixValue 10 ds)
                else None)
             else if list_all isDigit r then Some (radixValue 10 r) else None)
      else None)"

definition scale10 :: "rat \<Rightarrow> int \<Rightarrow> rat" where
  "scale10 x e = (if 0 \<le> e then x * 10 ^ nat e else x / 10 ^ nat (- e))"

definition unsignedDecimal :: "string \<Rightarrow> number" where
  "unsignedDecimal s =
     (if s = ''Infinity'' then PInf
      else
        let ip = takeWhile isDigit s;
            r1 = dropWhile isDigit s;
            hasDot = (r1 \<noteq> [] \<and> hd r1 = CHR ''.'');
            fp = (if hasDot then takeWhile isDigit (tl r1) else []);
            r2 = (if hasDot then dropWhile isDigit (tl r1) else r1)
        in if ip = [] \<and> fp = [] then NaN
           else (case exponentPart r2 of
                   None \<Rightarrow> NaN
                 | Some e \<Rightarrow>
                     round64 (scale10 (of_int (radixValue 10 ip)
                                       + of_int (radixValue 10 fp) / 10 ^ length fp) e)))"

definition nonDecimal :: "int \<Rightarrow> (char \<Rightarrow> bool) \<Rightarrow> string \<Rightarrow> number" where
  "nonDecimal b ok ds =
     (if ds \<noteq> [] \<and> list_all ok ds then round64 (of_int (radixValue b ds)) else NaN)"

text \<open>
  \<^verbatim>\<open>Number(s)\<close> on a string: white space is trimmed, the empty string is 0, a signed
  decimal literal or an unsigned hexadecimal, octal or binary literal is the double
  nearest to its value, and anything else is NaN.
\<close>

definition Number :: "string \<Rightarrow> number" where
  "Number s =
     (let t = trimString s in
      case t of
        [] \<Rightarrow> Fin 0
      | c # r \<Rightarrow>
          if c = CHR ''0'' \<and> r \<noteq> [] \<and> hd r \<in> set ''xX'' then nonDecimal 16 isHexDigit (tl r)
          else if c = CHR ''0'' \<and> r \<noteq> [] \<and> hd r \<in> set ''oO'' then nonDecimal 8 (\<lambda>d. d \<in> set ''01234567'') (tl r)
          else if c = CHR ''0'' \<and> r \<noteq> [] \<and> hd r \<in> set ''bB'' then nonDecimal 2 (\<lambda>d. d \<in> set ''01'') (tl r)
          else if c = CHR ''+'' then unsignedDecimal r
          else if c = CHR ''-'' then num_neg (unsignedDecimal r)
          else unsignedDecimal t)"

text \<open>\<^verbatim>\<open>s.split(':')\<close>: the pieces between the colons, at least one.\<close>

fun split_colon :: "string \<Rightarrow> string list" where
  "split_colon [] = [[]]"
| "split_colon (c # cs) =
     (if c = CHR '':'' then [] # split_colon cs
      else (case split_colon cs of p # ps \<Rightarrow> (c # p) # ps | [] \<Rightarrow> [[c]]))"

text \<open>The decimal digits of a non-negative integer.\<close>

function decimalDigits :: "int \<Rightarrow> string" where
  "decimalDigits n =
     (if n < 10 then [char_of (48 + n)]
      else decimalDigits (n div 10) @ [char_of (48 + n mod 10)])"
  by pat_completeness auto
termination
  by (relation "measure nat") auto

text \<open>
  \<^verbatim>\<open>toString\<close> of a number whose value is a non-negative integer \<open>n\<close>. The digits are
  those of the decimal with the fewest significant digits that denotes the same double
  (the nearest to \<open>n\<close> when there are several, the even one on a tie); below \<open>2 ^ 53\<close>
  this is \<open>n\<close> itself. With at most 21 digits it is written in full, and with more in
  exponent notation.
\<close>

definition shortestCandidate :: "int \<Rightarrow> nat \<Rightarrow> int option" where
  "shortestCandidate n zeros =
     (let scale = 10 ^ zeros;
          lo = (n div scale) * scale;
          hi = lo + scale;
          okLo = (round64 (of_int lo) = Fin (of_int n));
          okHi = (round64 (of_int hi) = Fin (of_int n))
      in if okLo \<and> okHi
         then Some (if n - lo < hi - n then lo
                    else if hi - n < n - lo then hi
                    else if even (n div scale) then lo else hi)
         else if okLo then Some lo
         else if okHi then Some hi
         else None)"

fun shortestFrom :: "int \<Rightarrow> nat list \<Rightarrow> int" where
  "shortestFrom n [] = n"
| "shortestFrom n (z # zs) =
     (case shortestCandidate n z of Some w \<Rightarrow> w | None \<Rightarrow> shortestFrom n zs)"

definition integerToString :: "int \<Rightarrow> string" where
  "integerToString n =
     (if n < 2 ^ 53 then decimalDigits n
      else
        let ds = decimalDigits (shortestFrom n (rev [0..<length (decimalDigits n)]))
        in if length ds \<le> 21 then ds
           else
             let sig = rev (dropWhile (\<lambda>c. c = CHR ''0'') (rev ds))
             in (if length sig = 1 then sig else hd sig # CHR ''.'' # tl sig)
                @ ''e+'' @ decimalDigits (int (length ds - 1)))"

definition intToString :: "int \<Rightarrow> string" where
  "intToString i = (if i < 0 then CHR ''-'' # integerToString (- i) else integerToString i)"

definition padStart2 :: "string \<Rightarrow> string" where
  "padStart2 s = replicate (2 - length s) (CHR ''0'') @ s"

text \<open>\<^verbatim>\<open>Math.floor(x).toString()\<close>.\<close>

fun floorToString :: "number \<Rightarrow> string" where
  "floorToString (Fin q) = intToString \<lfloor>q\<rfloor>"
| "floorToString PInf = ''Infinity''"
| "floorToString NInf = ''-Infinity''"
| "floorToString NaN = ''NaN''"

subsection \<open>The time codec of the service\<close>

definition parseTime :: "string \<Rightarrow> number" where
  "parseTime timeStr =
     (let parts = map Number (split_colon timeStr);
          hours = (case parts of h # _ \<Rightarrow> Some h | [] \<Rightarrow> None);
          minutes = (case parts of _ # m # _ \<Rightarrow> Some m | _ \<Rightarrow> None)
      in num_add (num_mul (or_zero hours) (Fin 60)) (or_zero minutes))"

definition formatTime :: "number \<Rightarrow> string" where
  "formatTime minutes =
     (let hours = floorToString (num_div minutes (Fin 60));
          mins = floorToString (num_rem minutes (Fin 60))
      in padStart2 hours @ '':'' @ padStart2 mins)"

text \<open>
  The pattern \<^verbatim>\<open>/^([0-1]?[0-9]|2[0-3]):[0-5][0-9]$/\<close> that the route handlers test a
  time string against before it reaches the service.
\<close>

definition timeRegex_test :: "string \<Rightarrow> bool" where
  "timeRegex_test s =
     (case s of
        [h, c, m1, m2] \<Rightarrow>
          isDigit h \<and> c = CHR '':'' \<and> m1 \<in> set ''012345'' \<and> isDigit m2
      | [h1, h2, c, m1, m2] \<Rightarrow>
          ((h1 \<in> set ''01'' \<and> isDigit h2) \<or> (h1 = CHR ''2'' \<and> h2 \<in> set ''0123''))
          \<and> c = CHR '':'' \<and> m1 \<in> set ''012345'' \<and> isDigit m2
      | _ \<Rightarrow> False)"

subsection \<open>The data model\<close>

text \<open>
  The rows of the tables and the body of a request, with the fields that the service
  reads. A numeric field holds the number that the service computes with: \<open>valueRs\<close> and
  \<open>distanceKm\<close> are the values of \<^verbatim>\<open>Number(order.valueRs)\<close> and
  \<^verbatim>\<open>Number(route.distanceKm)\<close>.
\<close>

datatype TrafficLevel = LOW | MEDIUM | HIGH

record Driver =
  d_id :: int
  d_name :: string
  shiftHours :: number
  pastWeekHours :: "number list"
  d_isActive :: bool

record Route =
  r_id :: int
  distanceKm :: number
  trafficLevel :: TrafficLevel
  baseTimeMin :: number
  r_isActive :: bool

record Order =
  o_id :: int
  orderId :: string
  valueRs :: number
  routeId :: int
  deliveryTime :: string
  o_isActive :: bool

record SimulationRequest =
  simulationName :: "string option"
  driverCount :: number
  routeStartTime :: string
  maxHours :: number
  driverIds :: "int list option"
  routeIds :: "int list option"

record DriverAssignment =
  da_driverId :: int
  da_driverName :: string
  assignedOrders :: "int list"
  totalHours :: number
  efficiency :: number

record OrderResult =
  or_orderId :: string
  or_driverId :: int
  or_routeId :: int
  or_deliveryTime :: string
  actualTime :: string
  isOnTime :: bool
  penalty :: number
  bonus :: number
  or_fuelCost :: number

record SimulationSummary =
  totalOrders :: nat
  totalRoutes :: nat
  averageEfficiency :: number
  profitMargin :: number
  recommendations :: "string list"

record SimulationData =
  driverAssignments :: "DriverAssignment list"
  orderResults :: "OrderResult list"
  summary :: SimulationSummary

record SimulationResult =
  totalProfit :: number
  efficiencyScore :: number
  onTimeDeliveries :: nat
  totalDeliveries :: nat
  fuelCost :: number
  penalties :: number
  bonuses :: number
  simulationData :: SimulationData

text \<open>The assignment objects that \<^verbatim>\<open>assignOrdersToDrivers\<close> builds.\<close>

record Assignment =
  a_driverId :: int
  a_orderIds :: "int list"
  a_startTime :: number

text \<open>The local accumulators of \<^verbatim>\<open>runSimulation\<close>.\<close>

record Acc =
  acc_totalProfit :: number
  acc_totalFuelCost :: number
  acc_totalPenalties :: number
  acc_totalBonuses :: number
  acc_onTimeDeliveries :: nat
  acc_totalDeliveries :: nat
  acc_totalDriverEfficiency :: number
  acc_driverAssignments :: "DriverAssignment list"
  acc_orderResults :: "OrderResult list"

text \<open>The row that \<^verbatim>\<open>saveSimulation\<close> inserts, and the tables the service reads.\<close>

record SimulationRow =
  db_simulationName :: "string option"
  db_driverCount :: number
  db_routeStartTime :: string
  db_maxHours :: number
  db_totalProfit :: number
  db_efficiencyScore :: number
  db_onTimeDeliveries :: nat
  db_totalDeliveries :: nat
  db_fuelCost :: number
  db_penalties :: number
  db_bonuses :: number
  db_simulationData :: SimulationData
  db_createdBy :: "int option"

record Database =
  driverTable :: "Driver list"
  routeTable :: "Route list"
  orderTable :: "Order list"
  simulationTable :: "SimulationRow list"

text \<open>
  What a run can throw: the two explicit errors, and the \<^verbatim>\<open>TypeError\<close> of reading a
  property of \<^verbatim>\<open>undefined\<close> (a failed \<^verbatim>\<open>find\<close>, or an index into an empty array).
\<close>

datatype error = NoDriversAvailable | NoOrdersAvailable | TypeError

subsection \<open>Delivery time, fuel cost, efficiency\<close>

text \<open>
  The third parameter of \<^verbatim>\<open>calculateDeliveryTime\<close> is the clock time that the callers
  pass (\<^verbatim>\<open>_startTime\<close> in the source); the body does not read it. An array shorter than
  seven gives \<^verbatim>\<open>undefined\<close> for \<^verbatim>\<open>pastWeekHours[6]\<close>, which is not greater than 8.
\<close>

definition calculateDeliveryTime :: "Route \<Rightarrow> Driver \<Rightarrow> number \<Rightarrow> number" where
  "calculateDeliveryTime route driver startTime =
     (let baseTime = baseTimeMin route;
          baseTime = (case trafficLevel route of
                        LOW \<Rightarrow> num_mul baseTime (lit 1)
                      | MEDIUM \<Rightarrow> num_mul baseTime (lit (12 / 10))
                      | HIGH \<Rightarrow> num_mul baseTime (lit (15 / 10)));
          yesterdayHours = (if 6 < length (pastWeekHours driver)
                            then Some (pastWeekHours driver ! 6) else None)
      in case yesterdayHours of
           Some h \<Rightarrow> if num_lt (Fin 8) h then num_mul baseTime (lit (13 / 10)) else baseTime
         | None \<Rightarrow> baseTime)"

definition calculateFuelCost :: "Route \<Rightarrow> number" where
  "calculateFuelCost route =
     (let fuelCostPerKm = Fin 5;
          fuelCostPerKm = (if trafficLevel route = HIGH then num_add fuelCostPerKm (Fin 2)
                           else fuelCostPerKm)
      in num_mul fuelCostPerKm (distanceKm route))"

definition calculateDriverEfficiency :: "Driver \<Rightarrow> number \<Rightarrow> number" where
  "calculateDriverEfficiency driver totalTime =
     (let shiftH = shiftHours driver;
          actualHours = num_div totalTime (Fin 60);
          utilization = num_min (num_div actualHours shiftH) (Fin 1);
          avgPastHours = num_div (foldl num_add (Fin 0) (pastWeekHours driver))
                           (Fin 7);
          consistency = num_sub (Fin 1) (num_div (num_abs (num_sub avgPastHours shiftH)) shiftH)
      in num_mul (num_add (num_mul utilization (lit (7 / 10))) (num_mul consistency (lit (3 / 10))))
                 (Fin 100))"

subsection \<open>Round-robin assignment\<close>

text \<open>
  Find the assignment of the driver, or create it with the current clock and push it at
  the end; then push the order id onto it. The assignment objects are mutated in place,
  so the first assignment with the driver's id is the one that changes.
\<close>

fun pushOrder :: "int \<Rightarrow> int \<Rightarrow> number \<Rightarrow> Assignment list \<Rightarrow> Assignment list" where
  "pushOrder did oid currentTime [] =
     [\<lparr>a_driverId = did, a_orderIds = [oid], a_startTime = currentTime\<rparr>]"
| "pushOrder did oid currentTime (a # as) =
     (if a_driverId a = did then a\<lparr>a_orderIds := a_orderIds a @ [oid]\<rparr> # as
      else a # pushOrder did oid currentTime as)"

text \<open>One iteration of the loop over the orders; the state is the assignments, the driver
  index and the clock.\<close>

definition assignStep ::
  "Driver list \<Rightarrow> Route list \<Rightarrow> number \<Rightarrow> number \<Rightarrow> Order \<Rightarrow>
   Assignment list \<times> nat \<times> number \<Rightarrow> error + (Assignment list \<times> nat \<times> number)" where
  "assignStep drivers routes startTime maxMinutes ord st =
     (case st of (assignments, driverIndex, currentTime) \<Rightarrow>
        if drivers = [] then Inl TypeError
        else
          let driver = drivers ! (driverIndex mod length drivers) in
          (case find (\<lambda>r. r_id r = routeId ord) routes of
             None \<Rightarrow> Inl TypeError
           | Some route \<Rightarrow>
               let estimatedTime = calculateDeliveryTime route driver currentTime in
               if num_le (num_add currentTime estimatedTime) (num_add startTime maxMinutes)
               then Inr (pushOrder (d_id driver) (o_id ord) currentTime assignments,
                         driverIndex + 1, num_add currentTime estimatedTime)
               else Inr (assignments, driverIndex + 1, currentTime)))"

fun assignLoop ::
  "Driver list \<Rightarrow> Route list \<Rightarrow> number \<Rightarrow> number \<Rightarrow> Order list \<Rightarrow>
   Assignment list \<times> nat \<times> number \<Rightarrow> error + (Assignment list \<times> nat \<times> number)" where
  "assignLoop drivers routes startTime maxMinutes [] st = Inr st"
| "assignLoop drivers routes startTime maxMinutes (ord # rest) st =
     (case assignStep drivers routes startTime maxMinutes ord st of
        Inl e \<Rightarrow> Inl e
      | Inr st' \<Rightarrow> assignLoop drivers routes startTime maxMinutes rest st')"

definition assignOrdersToDrivers ::
  "Driver list \<Rightarrow> Order list \<Rightarrow> Route list \<Rightarrow> number \<Rightarrow> number \<Rightarrow> error + Assignment list" where
  "assignOrdersToDrivers drivers orders routes startTime maxMinutes =
     (case assignLoop drivers routes startTime maxMinutes orders ([], 0, startTime) of
        Inl e \<Rightarrow> Inl e
      | Inr (assignments, _, _) \<Rightarrow> Inr assignments)"

subsection \<open>Summary and persistence\<close>

definition generateSummary ::
  "nat \<Rightarrow> nat \<Rightarrow> number \<Rightarrow> number \<Rightarrow> number \<Rightarrow> number \<Rightarrow> number \<Rightarrow> SimulationSummary" where
  "generateSummary nOrders nRoutes eff profit fuel pens bons =
     (let recs = [];
          recs = (if num_lt eff (Fin 70)
                  then recs @ [''Consider optimizing driver assignments to improve efficiency'']
                  else recs);
          recs = (if num_lt (num_mul profit (lit (1 / 10))) pens
                  then recs @ [''High penalty costs suggest need for better route planning and time management'']
                  else recs);
          recs = (if num_lt (num_mul profit (lit (3 / 10))) fuel
                  then recs @ [''Fuel costs are high - consider route optimization and traffic avoidance'']
                  else recs);
          recs = (if num_lt bons (num_mul profit (lit (5 / 100)))
                  then recs @ [''Low bonus earnings - focus on high-value order prioritization'']
                  else recs)
      in \<lparr>totalOrders = nOrders,
          totalRoutes = nRoutes,
          averageEfficiency = eff,
          profitMargin = (if num_lt (Fin 0) profit
                          then num_mul (num_div profit (num_add (num_add profit fuel) pens)) (Fin 100)
                          else Fin 0),
          recommendations = recs\<rparr>)"

definition saveSimulation ::
  "SimulationRequest \<Rightarrow> SimulationResult \<Rightarrow> int option \<Rightarrow> Database \<Rightarrow> Database" where
  "saveSimulation request results userId db =
     (let data = \<lparr>db_simulationName = simulationName request,
                  db_driverCount = driverCount request,
                  db_routeStartTime = routeStartTime request,
                  db_maxHours = maxHours request,
                  db_totalProfit = totalProfit results,
                  db_efficiencyScore = efficiencyScore results,
                  db_onTimeDeliveries = onTimeDeliveries results,
                  db_totalDeliveries = totalDeliveries results,
                  db_fuelCost = fuelCost results,
                  db_penalties = penalties results,
                  db_bonuses = bonuses results,
                  db_simulationData = simulationData results,
                  db_createdBy = (case userId of
                                    Some u \<Rightarrow> if u \<noteq> 0 then Some u else None
                                  | None \<Rightarrow> None)\<rparr>
      in db\<lparr>simulationTable := simulationTable db @ [data]\<rparr>)"

subsection \<open>Reading the tables\<close>

text \<open>
  The three queries of the service filter the active rows, and the drivers and orders by
  the id lists of the request when these are given and not empty. No query asks for an
  order of the rows; the model returns them in the order of the table.
\<close>

definition getAvailableDrivers :: "Database \<Rightarrow> int list option \<Rightarrow> Driver list" where
  "getAvailableDrivers db ids =
     (case ids of
        Some l \<Rightarrow>
          if 0 < length l then filter (\<lambda>d. d_isActive d \<and> d_id d \<in> set l) (driverTable db)
          else filter d_isActive (driverTable db)
      | None \<Rightarrow> filter d_isActive (driverTable db))"

definition getAvailableOrders :: "Database \<Rightarrow> int list option \<Rightarrow> Order list" where
  "getAvailableOrders db ids =
     (case ids of
        Some l \<Rightarrow>
          if 0 < length l then filter (\<lambda>x. o_isActive x \<and> routeId x \<in> set l) (orderTable db)
          else filter o_isActive (orderTable db)
      | None \<Rightarrow> filter o_isActive (orderTable db))"

definition getAvailableRoutes :: "Database \<Rightarrow> Route list" where
  "getAvailableRoutes db = filter r_isActive (routeTable db)"

subsection \<open>The simulation run\<close>

text \<open>
  The body of the loop over the order ids of one assignment. The state is the driver's
  running total, the order ids pushed onto the driver's result, and the accumulators.
\<close>

definition processOrder ::
  "Driver \<Rightarrow> number \<Rightarrow> Order list \<Rightarrow> Route list \<Rightarrow> int \<Rightarrow>
   number \<times> int list \<times> Acc \<Rightarrow> error + (number \<times> int list \<times> Acc)" where
  "processOrder driver aStart orders routes oid st =
     (case st of (driverTotalTime, assigned, acc) \<Rightarrow>
      (case find (\<lambda>x. o_id x = oid) orders of
        None \<Rightarrow> Inl TypeError
      | Some ord \<Rightarrow>
        (case find (\<lambda>r. r_id r = routeId ord) routes of
           None \<Rightarrow> Inl TypeError
         | Some route \<Rightarrow>
             let actualDeliveryTime =
                   calculateDeliveryTime route driver (num_add aStart driverTotalTime);
                 expectedTime = parseTime (deliveryTime ord);
                 onTime = num_le actualDeliveryTime (num_add expectedTime (Fin 10));
                 pen = (if \<not> onTime then Fin 50 else Fin 0);
                 bon = (if onTime \<and> num_lt (Fin 1000) (valueRs ord)
                        then num_mul (valueRs ord) (lit (1 / 10)) else Fin 0);
                 acc = (if \<not> onTime
                        then acc\<lparr>acc_totalPenalties := num_add (acc_totalPenalties acc) pen\<rparr>
                        else if num_lt (Fin 1000) (valueRs ord)
                        then acc\<lparr>acc_onTimeDeliveries := acc_onTimeDeliveries acc + 1,
                                 acc_totalBonuses := num_add (acc_totalBonuses acc) bon\<rparr>
                        else acc\<lparr>acc_onTimeDeliveries := acc_onTimeDeliveries acc + 1\<rparr>);
                 fuel = calculateFuelCost route;
                 orderProfit = num_sub (num_sub (num_add (valueRs ord) bon) pen) fuel;
                 driverTotalTime' =
                   num_add driverTotalTime
                     (num_sub actualDeliveryTime (num_add aStart driverTotalTime))
             in Inr (driverTotalTime', assigned @ [oid],
                     acc\<lparr>acc_totalFuelCost := num_add (acc_totalFuelCost acc) fuel,
                         acc_totalProfit := num_add (acc_totalProfit acc) orderProfit,
                         acc_orderResults := acc_orderResults acc @
                           [\<lparr>or_orderId = orderId ord,
                             or_driverId = d_id driver,
                             or_routeId = r_id route,
                             or_deliveryTime = deliveryTime ord,
                             actualTime = formatTime (num_add aStart driverTotalTime'),
                             isOnTime = onTime,
                             penalty = pen,
                             bonus = bon,
                             or_fuelCost = fuel\<rparr>],
                         acc_totalDeliveries := acc_totalDeliveries acc + 1\<rparr>))))"

fun processOrders ::
  "Driver \<Rightarrow> number \<Rightarrow> Order list \<Rightarrow> Route list \<Rightarrow> int list \<Rightarrow>
   number \<times> int list \<times> Acc \<Rightarrow> error + (number \<times> int list \<times> Acc)" where
  "processOrders driver aStart orders routes [] st = Inr st"
| "processOrders driver aStart orders routes (oid # oids) st =
     (case processOrder driver aStart orders routes oid st of
        Inl e \<Rightarrow> Inl e
      | Inr st' \<Rightarrow> processOrders driver aStart orders routes oids st')"

text \<open>The body of the loop over the assignments.\<close>

definition processAssignment ::
  "Driver list \<Rightarrow> Order list \<Rightarrow> Route list \<Rightarrow> Assignment \<Rightarrow> Acc \<Rightarrow> error + Acc" where
  "processAssignment drivers orders routes a acc =
     (case find (\<lambda>d. d_id d = a_driverId a) drivers of
        None \<Rightarrow> Inl TypeError
      | Some driver \<Rightarrow>
        (case processOrders driver (a_startTime a) orders routes (a_orderIds a) (Fin 0, [], acc) of
           Inl e \<Rightarrow> Inl e
         | Inr (driverTotalTime, assigned, acc') \<Rightarrow>
             let eff = calculateDriverEfficiency driver driverTotalTime;
                 driverResult = \<lparr>da_driverId = d_id driver,
                                 da_driverName = d_name driver,
                                 assignedOrders = assigned,
                                 totalHours = num_div driverTotalTime (Fin 60),
                                 efficiency = eff\<rparr>
             in Inr (acc'\<lparr>acc_driverAssignments := acc_driverAssignments acc' @ [driverResult],
                          acc_totalDriverEfficiency :=
                            num_add (acc_totalDriverEfficiency acc') eff\<rparr>)))"

fun processAssignments ::
  "Driver list \<Rightarrow> Order list \<Rightarrow> Route list \<Rightarrow> Assignment list \<Rightarrow> Acc \<Rightarrow> error + Acc" where
  "processAssignments drivers orders routes [] acc = Inr acc"
| "processAssignments drivers orders routes (a # as) acc =
     (case processAssignment drivers orders routes a acc of
        Inl e \<Rightarrow> Inl e
      | Inr acc' \<Rightarrow> processAssignments drivers orders routes as acc')"

definition initialAcc :: Acc where
  "initialAcc =
     \<lparr>acc_totalProfit = Fin 0, acc_totalFuelCost = Fin 0, acc_totalPenalties = Fin 0,
      acc_totalBonuses = Fin 0,
      acc_onTimeDeliveries = 0, acc_totalDeliveries = 0, acc_totalDriverEfficiency = Fin 0,
      acc_driverAssignments = [], acc_orderResults = []\<rparr>"

text \<open>The run on the rows read from the tables, up to the result that is saved and returned.\<close>

definition simulate ::
  "Driver list \<Rightarrow> Order list \<Rightarrow> Route list \<Rightarrow> string \<Rightarrow> number \<Rightarrow> error + SimulationResult" where
  "simulate drivers orders routes startStr maxH =
     (if length drivers = 0 then Inl NoDriversAvailable
      else if length orders = 0 then Inl NoOrdersAvailable
      else
        let startTime = parseTime startStr;
            maxMinutes = num_mul maxH (Fin 60)
        in case assignOrdersToDrivers drivers orders routes startTime maxMinutes of
             Inl e \<Rightarrow> Inl e
           | Inr assignments \<Rightarrow>
             (case processAssignments drivers orders routes assignments initialAcc of
                Inl e \<Rightarrow> Inl e
              | Inr acc \<Rightarrow>
                  let effScore =
                        (if 0 < length (acc_driverAssignments acc)
                         then num_div (acc_totalDriverEfficiency acc)
                                (Fin (of_nat (length (acc_driverAssignments acc))))
                         else Fin 0);
                      summ = generateSummary (length orders) (length routes) effScore
                               (acc_totalProfit acc) (acc_totalFuelCost acc)
                               (acc_totalPenalties acc) (acc_totalBonuses acc)
                  in Inr \<lparr>totalProfit = acc_totalProfit acc,
                          efficiencyScore = effScore,
                          onTimeDeliveries = acc_onTimeDeliveries acc,
                          totalDeliveries = acc_totalDeliveries acc,
                          fuelCost = acc_totalFuelCost acc,
                          penalties = acc_totalPenalties acc,
                          bonuses = acc_totalBonuses acc,
                          simulationData =
                            \<lparr>driverAssignments = acc_driverAssignments acc,
                             orderResults = acc_orderResults acc,
                             summary = summ\<rparr>\<rparr>))"

definition runSimulation ::
  "SimulationRequest \<Rightarrow> int option \<Rightarrow> Database \<Rightarrow> error + (SimulationResult \<times> Database)" where
  "runSimulation request userId db =
     (let drivers = getAvailableDrivers db (driverIds request);
          orders = getAvailableOrders db (routeIds request);
          routes = getAvailableRoutes db
      in case simulate drivers orders routes (routeStartTime request) (maxHours request) of
           Inl e \<Rightarrow> Inl e
         | Inr result \<Rightarrow> Inr (result, saveSimulation request result userId db))"

subsection \<open>The route handler of \<^verbatim>\<open>POST /run\<close>\<close>

text \<open>
  The handler, after authentication: it validates the body, calls the service, and
  answers 200 with the result, 400 with a message, or 500 with the error it caught.
\<close>

datatype Response = Status200 SimulationResult | Status400 string | Status500 error

definition postRun :: "SimulationRequest \<Rightarrow> int option \<Rightarrow> Database \<Rightarrow> Response \<times> Database" where
  "postRun body userId db =
     (if falsy (driverCount body) \<or> routeStartTime body = [] \<or> falsy (maxHours body)
      then (Status400 ''Driver count, route start time, and max hours are required'', db)
      else if num_lt (driverCount body) (Fin 1)
      then (Status400 ''Driver count must be at least 1'', db)
      else if num_lt (maxHours body) (Fin 1) \<or> num_lt (Fin 24) (maxHours body)
      then (Status400 ''Max hours must be between 1 and 24'', db)
      else if \<not> timeRegex_test (routeStartTime body)
      then (Status400 ''Route start time must be in HH:MM format'', db)
      else (case runSimulation body userId db of
              Inl e \<Rightarrow> (Status500 e, db)
            | Inr (result, db') \<Rightarrow> (Status200 result, db')))"

subsection \<open>The assignment policy as the specification words it\<close>

text \<open>
  The specification describes the assignment engine by position: the \<open>i\<close>-th order goes
  to \<open>drivers[i mod driverCount]\<close>, its estimate is the duration of its route for that
  driver, and one clock, started at the route start time, advances by the estimate
  exactly when the order fits before \<open>routeStartTime + maxMinutes\<close>. The definitions of
  this subsection follow that wording; they are compared with the loop of the service.
\<close>

definition duration :: "Route \<Rightarrow> Driver \<Rightarrow> number" where
  "duration route driver =
     (let base = num_mul (baseTimeMin route)
                   (case trafficLevel route of
                      LOW \<Rightarrow> lit 1 | MEDIUM \<Rightarrow> lit (12 / 10) | HIGH \<Rightarrow> lit (15 / 10))
      in if 6 < length (pastWeekHours driver) \<and> num_lt (Fin 8) (pastWeekHours driver ! 6)
         then num_mul base (lit (13 / 10)) else base)"

definition spec_driver :: "Driver list \<Rightarrow> nat \<Rightarrow> Driver" where
  "spec_driver drivers i = drivers ! (i mod length drivers)"

definition spec_est :: "Driver list \<Rightarrow> Route list \<Rightarrow> Order list \<Rightarrow> nat \<Rightarrow> number" where
  "spec_est drivers routes orders i =
     duration (the (find (\<lambda>r. r_id r = routeId (orders ! i)) routes)) (spec_driver drivers i)"

text \<open>The clock before the \<open>i\<close>-th order is handled.\<close>

fun spec_clock ::
  "Driver list \<Rightarrow> Route list \<Rightarrow> number \<Rightarrow> number \<Rightarrow> Order list \<Rightarrow> nat \<Rightarrow> number" where
  "spec_clock drivers routes startTime maxMinutes orders 0 = startTime"
| "spec_clock drivers routes startTime maxMinutes orders (Suc i) =
     (let clock = spec_clock drivers routes startTime maxMinutes orders i;
          est = spec_est drivers routes orders i
      in if num_le (num_add clock est) (num_add startTime maxMinutes)
         then num_add clock est else clock)"

definition spec_placed ::
  "Driver list \<Rightarrow> Route list \<Rightarrow> number \<Rightarrow> number \<Rightarrow> Order list \<Rightarrow> nat \<Rightarrow> bool" where
  "spec_placed drivers routes startTime maxMinutes orders i =
     num_le (num_add (spec_clock drivers routes startTime maxMinutes orders i)
                     (spec_est drivers routes orders i))
            (num_add startTime maxMinutes)"


text \<open>
  The assignments after the first \<open>k\<close> orders: one per driver that had an order placed, in
  the order of the drivers' first placements, holding the driver's placed orders in input
  order and the clock at the driver's first placement.
\<close>

definition spec_placedIndices ::
  "Driver list \<Rightarrow> Route list \<Rightarrow> number \<Rightarrow> number \<Rightarrow> Order list \<Rightarrow> nat \<Rightarrow> nat list" where
  "spec_placedIndices drivers routes startTime maxMinutes orders k =
     filter (spec_placed drivers routes startTime maxMinutes orders) [0..<k]"

definition spec_assignment ::
  "Driver list \<Rightarrow> Route list \<Rightarrow> number \<Rightarrow> number \<Rightarrow> Order list \<Rightarrow> nat \<Rightarrow> int \<Rightarrow> Assignment" where
  "spec_assignment drivers routes startTime maxMinutes orders k did =
     (let mine = filter (\<lambda>i. d_id (spec_driver drivers i) = did)
                   (spec_placedIndices drivers routes startTime maxMinutes orders k)
      in \<lparr>a_driverId = did,
          a_orderIds = map (\<lambda>i. o_id (orders ! i)) mine,
          a_startTime = spec_clock drivers routes startTime maxMinutes orders (hd mine)\<rparr>)"


subsection \<open>The deliveries of a run, and the cost rules as the specification words them\<close>

text \<open>
  The deliveries that the second loop of \<^verbatim>\<open>runSimulation\<close> handles: for every assignment,
  in order, the driver found for it, and for every order id of the assignment, in order,
  the order and the route found for it.
\<close>

definition lookupOrder :: "Order list \<Rightarrow> Route list \<Rightarrow> int \<Rightarrow> (Order \<times> Route) option" where
  "lookupOrder orders routes oid =
     (case find (\<lambda>x. o_id x = oid) orders of
        None \<Rightarrow> None
      | Some ord \<Rightarrow>
          (case find (\<lambda>r. r_id r = routeId ord) routes of
             None \<Rightarrow> None
           | Some route \<Rightarrow> Some (ord, route)))"

definition deliveriesOf ::
  "Driver list \<Rightarrow> Order list \<Rightarrow> Route list \<Rightarrow> Assignment \<Rightarrow> (Driver \<times> Order \<times> Route) list" where
  "deliveriesOf drivers orders routes a =
     (case find (\<lambda>d. d_id d = a_driverId a) drivers of
        None \<Rightarrow> []
      | Some driver \<Rightarrow>
          map (\<lambda>p. (driver, p)) (List.map_filter (lookupOrder orders routes) (a_orderIds a)))"

definition deliveries ::
  "Driver list \<Rightarrow> Order list \<Rightarrow> Route list \<Rightarrow> Assignment list \<Rightarrow> (Driver \<times> Order \<times> Route) list" where
  "deliveries drivers orders routes as = concat (map (deliveriesOf drivers orders routes) as)"

text \<open>The rules of the cost model, in the words of the specification.\<close>

definition spec_isOnTime :: "Order \<Rightarrow> number \<Rightarrow> bool" where
  "spec_isOnTime ord actualDuration =
     num_le actualDuration (num_add (parseTime (deliveryTime ord)) (Fin 10))"

definition spec_penalty :: "bool \<Rightarrow> number" where
  "spec_penalty onTime = (if onTime then Fin 0 else Fin 50)"

definition spec_bonus :: "Order \<Rightarrow> bool \<Rightarrow> number" where
  "spec_bonus ord onTime =
     (if onTime \<and> num_lt (Fin 1000) (valueRs ord)
      then num_mul (valueRs ord) (lit (1 / 10)) else Fin 0)"

text \<open>The rules applied to one delivery: a driver, an order and the order's route.\<close>

definition delivery_onTime :: "Driver \<times> Order \<times> Route \<Rightarrow> bool" where
  "delivery_onTime x = (case x of (driver, ord, route) \<Rightarrow> spec_isOnTime ord (duration route driver))"

definition delivery_penalty :: "Driver \<times> Order \<times> Route \<Rightarrow> number" where
  "delivery_penalty x = spec_penalty (delivery_onTime x)"

definition delivery_bonus :: "Driver \<times> Order \<times> Route \<Rightarrow> number" where
  "delivery_bonus x = (case x of (driver, ord, route) \<Rightarrow> spec_bonus ord (delivery_onTime x))"

definition delivery_fuel :: "Driver \<times> Order \<times> Route \<Rightarrow> number" where
  "delivery_fuel x = (case x of (driver, ord, route) \<Rightarrow> calculateFuelCost route)"

definition delivery_value :: "Driver \<times> Order \<times> Route \<Rightarrow> number" where
  "delivery_value x = (case x of (driver, ord, route) \<Rightarrow> valueRs ord)"

text \<open>
  What one delivery adds to the running profit and to the order results (without the
  formatted time) under these rules, each step rounded as the doubles of the service are.
\<close>

type_synonym result_view =
  "string \<times> int \<times> int \<times> string \<times> bool \<times> number \<times> number \<times> number"

type_synonym totals_view = "number \<times> nat \<times> result_view list"

definition resultView :: "OrderResult \<Rightarrow> result_view" where
  "resultView r =
     (or_orderId r, or_driverId r, or_routeId r, or_deliveryTime r,
      isOnTime r, penalty r, bonus r, or_fuelCost r)"

definition accView :: "Acc \<Rightarrow> totals_view" where
  "accView acc =
     (acc_totalProfit acc, acc_totalDeliveries acc, map resultView (acc_orderResults acc))"

definition spec_result :: "Driver \<times> Order \<times> Route \<Rightarrow> result_view" where
  "spec_result x =
     (case x of (driver, ord, route) \<Rightarrow>
        (orderId ord, d_id driver, r_id route, deliveryTime ord,
         delivery_onTime x, delivery_penalty x, delivery_bonus x, delivery_fuel x))"

definition spec_profit :: "Driver \<times> Order \<times> Route \<Rightarrow> number" where
  "spec_profit x =
     num_sub (num_sub (num_add (delivery_value x) (delivery_bonus x)) (delivery_penalty x))
             (delivery_fuel x)"

definition addDelivery :: "totals_view \<Rightarrow> Driver \<times> Order \<times> Route \<Rightarrow> totals_view" where
  "addDelivery v x =
     (case v of (profit, count, results) \<Rightarrow>
        (num_add profit (spec_profit x), count + 1, results @ [spec_result x]))"

definition resultTotals :: "SimulationResult \<Rightarrow> totals_view" where
  "resultTotals res =
     (totalProfit res, totalDeliveries res, map resultView (orderResults (simulationData res)))"

text \<open>The order ids held by a list of assignments.\<close>

definition assignedIds :: "Assignment list \<Rightarrow> int list" where
  "assignedIds as = concat (map a_orderIds as)"

subsection \<open>The worked scenario of the specification\<close>

definition scenarioD1 :: Driver where
  "scenarioD1 = \<lparr>d_id = 1, d_name = ''D1'', shiftHours = Fin 8,
     pastWeekHours = map Fin [8, 8, 8, 8, 8, 8, 8], d_isActive = True\<rparr>"

definition scenarioD2 :: Driver where
  "scenarioD2 = \<lparr>d_id = 2, d_name = ''D2'', shiftHours = Fin 8,
     pastWeekHours = map Fin [8, 8, 8, 8, 8, 8, 10], d_isActive = True\<rparr>"

definition scenarioR1 :: Route where
  "scenarioR1 = \<lparr>r_id = 1, distanceKm = Fin 10, trafficLevel = LOW, baseTimeMin = Fin 30,
     r_isActive = True\<rparr>"

definition scenarioO1 :: Order where
  "scenarioO1 = \<lparr>o_id = 1, orderId = ''O1'', valueRs = Fin 1200, routeId = 1,
     deliveryTime = ''09:00'', o_isActive = True\<rparr>"

definition scenarioO2 :: Order where
  "scenarioO2 = \<lparr>o_id = 2, orderId = ''O2'', valueRs = Fin 600, routeId = 1,
     deliveryTime = ''09:10'', o_isActive = True\<rparr>"

definition scenarioO3 :: Order where
  "scenarioO3 = \<lparr>o_id = 3, orderId = ''O3'', valueRs = Fin 1500, routeId = 1,
     deliveryTime = ''09:20'', o_isActive = True\<rparr>"

text \<open>A fourth order for the scenario, due a quarter past midnight.\<close>

definition scenarioO4 :: Order where
  "scenarioO4 = \<lparr>o_id = 4, orderId = ''O4'', valueRs = Fin 2000, routeId = 1,
     deliveryTime = ''00:15'', o_isActive = True\<rparr>"

definition scenarioDb :: Database where
  "scenarioDb = \<lparr>driverTable = [scenarioD1, scenarioD2], routeTable = [scenarioR1],
     orderTable = [scenarioO1, scenarioO2, scenarioO3], simulationTable = []\<rparr>"

definition scenarioRequest :: SimulationRequest where
  "scenarioRequest = \<lparr>simulationName = None, driverCount = Fin 2, routeStartTime = ''08:00'',
     maxHours = Fin 8, driverIds = None, routeIds = None\<rparr>"

text \<open>
  Three orders of 1001 each for the scenario's route, and a second scenario in which the
  rounding of the clock decides a placement: one driver, three routes in medium traffic
  with base times 3, 26 and 21, a route of 20 minutes in low traffic, and one order on
  each.
\<close>

definition roundingO1 :: Order where
  "roundingO1 = \<lparr>o_id = 21, orderId = ''P1'', valueRs = Fin 1001, routeId = 1,
     deliveryTime = ''09:00'', o_isActive = True\<rparr>"



definition tightRoutes :: "Route list" where
  "tightRoutes =
     [\<lparr>r_id = 11, distanceKm = Fin 1, trafficLevel = MEDIUM, baseTimeMin = Fin 3, r_isActive = True\<rparr>,
      \<lparr>r_id = 12, distanceKm = Fin 1, trafficLevel = MEDIUM, baseTimeMin = Fin 26, r_isActive = True\<rparr>,
      \<lparr>r_id = 13, distanceKm = Fin 1, trafficLevel = MEDIUM, baseTimeMin = Fin 21, r_isActive = True\<rparr>,
      \<lparr>r_id = 14, distanceKm = Fin 1, trafficLevel = LOW, baseTimeMin = Fin 20, r_isActive = True\<rparr>]"

definition tightO1 :: Order where
  "tightO1 = \<lparr>o_id = 1, orderId = ''T1'', valueRs = Fin 100, routeId = 11,
     deliveryTime = ''09:00'', o_isActive = True\<rparr>"

definition tightO2 :: Order where
  "tightO2 = \<lparr>o_id = 2, orderId = ''T2'', valueRs = Fin 100, routeId = 12,
     deliveryTime = ''09:00'', o_isActive = True\<rparr>"

definition tightO3 :: Order where
  "tightO3 = \<lparr>o_id = 3, orderId = ''T3'', valueRs = Fin 100, routeId = 13,
     deliveryTime = ''09:00'', o_isActive = True\<rparr>"

definition tightO4 :: Order where
  "tightO4 = \<lparr>o_id = 4, orderId = ''T4'', valueRs = Fin 100, routeId = 14,
     deliveryTime = ''09:00'', o_isActive = True\<rparr>"

section \<open>Properties\<close>

subsection \<open>Helper lemmas: rounding to the nearest double\<close>

declare bitLength.simps [simp del]

lemma bitLength_nonpos [simp]: "n \<le> 0 \<Longrightarrow> bitLength n = 0"
  by (simp add: bitLength.simps)

lemma bitLength_pos: "0 < n \<Longrightarrow> bitLength n = 1 + bitLength (n div 2)"
  by (subst bitLength.simps) simp

lemma bitLength_one [simp]: "bitLength 1 = 1"
  by (simp add: bitLength_pos)

lemma bitLength_nonneg: "0 \<le> bitLength n"
proof (induction n rule: bitLength.induct)
  case (1 n)
  show ?case
  proof (cases "n \<le> 0")
    case True
    then show ?thesis by simp
  next
    case False
    then show ?thesis using 1 by (simp add: bitLength_pos)
  qed
qed

lemma bitLength_ge1: "0 < n \<Longrightarrow> 1 \<le> bitLength n"
  using bitLength_nonneg[of "n div 2"] by (simp add: bitLength_pos)

lemma bitLength_bounds:
  "0 < n \<Longrightarrow> 2 ^ nat (bitLength n - 1) \<le> n \<and> n < 2 ^ nat (bitLength n)"
proof (induction n rule: bitLength.induct)
  case (1 n)
  show ?case
  proof (cases "n = 1")
    case True
    then show ?thesis by simp
  next
    case False
    with "1.prems" have h: "0 < n div 2" by simp
    with "1.IH" "1.prems" have ih: "2 ^ nat (bitLength (n div 2) - 1) \<le> n div 2"
      "n div 2 < 2 ^ nat (bitLength (n div 2))" by simp_all
    have l: "1 \<le> bitLength (n div 2)" using bitLength_ge1[OF h] .
    have e1: "nat (bitLength n - 1) = Suc (nat (bitLength (n div 2) - 1))"
      using l "1.prems" by (simp add: bitLength_pos)
    have e2: "nat (bitLength n) = Suc (nat (bitLength (n div 2)))"
      using l "1.prems" by (simp add: bitLength_pos)
    have "2 * 2 ^ nat (bitLength (n div 2) - 1) \<le> n" using ih(1) by linarith
    moreover have "n < 2 * 2 ^ nat (bitLength (n div 2))" using ih(2) by linarith
    ultimately show ?thesis by (simp add: e1 e2)
  qed
qed

lemma bitLength_le: "n < 2 ^ w \<Longrightarrow> bitLength n \<le> int w"
proof (cases "0 < n")
  case False
  then show ?thesis by simp
next
  case True
  assume a: "n < 2 ^ w"
  have "(2::int) ^ nat (bitLength n - 1) < 2 ^ w"
    using bitLength_bounds[OF True] a by linarith
  then have "nat (bitLength n - 1) < w" by simp
  then show ?thesis by linarith
qed

lemma round_half_even_div_one [simp]: "round_half_even_div x 1 = x"
  by (simp add: round_half_even_div_def)

lemma round64_zero [simp]: "round64 0 = Fin 0"
  by (simp add: round64_def)

lemma round64_pos:
  assumes "quotient_of x = (a, b)" "0 < a" "ulpExponent a b \<le> 0"
  shows "round64 x = Fin (of_int (scaledRound a b (ulpExponent a b)) * pow2 (ulpExponent a b))"
proof -
  have "\<not> (971 < ulpExponent a b \<or> (ulpExponent a b = 971 \<and> scaledRound a b (ulpExponent a b) = 2 ^ 53))"
    using assms(3) by linarith
  then show ?thesis
    using assms(2) unfolding round64_def assms(1) Let_def by (simp only: split if_False abs_of_pos) simp
qed

lemma round64_int_exact:
  assumes "0 \<le> n" "n < 2 ^ 53"
  shows "round64 (of_int n) = Fin (of_int n)"
proof (cases "n = 0")
  case True
  then show ?thesis by simp
next
  case False
  with assms have pos: "0 < n" by simp
  define e where "e = ulpExponent n 1"
  have k0: "0 \<le> bitLength n - 1" using bitLength_ge1[OF pos] by simp
  have "bitLength n \<le> 53" using bitLength_le[OF assms(2)] by simp
  then have fl: "floorLog2 n 1 \<le> 52"
    using k0 by (simp add: floorLog2_def Let_def)
  have e: "e \<le> 0" using fl by (simp add: e_def ulpExponent_def)
  have m: "scaledRound n 1 e = n * 2 ^ nat (- e)"
    using e by (cases "e = 0") (simp_all add: scaledRound_def)
  have v: "(of_int (n * 2 ^ nat (- e)) * pow2 e :: rat) = of_int n"
    using e by (cases "e = 0") (simp_all add: pow2_def)
  have q: "quotient_of (of_int n) = (n, 1)" by simp
  have "round64 (of_int n) = Fin (of_int (scaledRound n 1 e) * pow2 e)"
    using round64_pos[OF q pos] e unfolding e_def by simp
  then show ?thesis unfolding m using v by simp
qed

lemma round_half_even_div_cases:
  assumes "0 < den"
  shows "round_half_even_div num den = num div den
       \<or> (round_half_even_div num den = num div den + 1 \<and> den \<le> 2 * (num mod den))"
  by (auto simp: round_half_even_div_def Let_def)

lemma floorLog2_upper:
  assumes "0 < a" "0 < b" "a < 2 ^ w * b"
  shows "floorLog2 a b < int w"
proof -
  have ba: "2 ^ nat (bitLength a - 1) \<le> a" using bitLength_bounds[OF assms(1)] by simp
  have bb: "b < 2 ^ nat (bitLength b)" using bitLength_bounds[OF assms(2)] by simp
  have la: "1 \<le> bitLength a" using bitLength_ge1[OF assms(1)] .
  have lb: "1 \<le> bitLength b" using bitLength_ge1[OF assms(2)] .
  define k where "k = bitLength a - bitLength b"
  have kw: "k \<le> int w"
  proof (rule ccontr)
    assume "\<not> k \<le> int w"
    then have "int w + bitLength b \<le> bitLength a - 1" by (simp add: k_def)
    then have "w + nat (bitLength b) \<le> nat (bitLength a - 1)" using lb by linarith
    then have "(2::int) ^ (w + nat (bitLength b)) \<le> 2 ^ nat (bitLength a - 1)"
      by (rule power_increasing) simp
    then have "2 ^ w * 2 ^ nat (bitLength b) \<le> a" using ba by (simp add: power_add)
    moreover have "(2::int) ^ w * b < 2 ^ w * 2 ^ nat (bitLength b)" using bb by simp
    ultimately show False using assms(3) by linarith
  qed
  have fdef: "floorLog2 a b
              = (if (if 0 \<le> k then b * 2 ^ nat k \<le> a else b \<le> a * 2 ^ nat (- k)) then k else k - 1)"
    by (simp only: floorLog2_def Let_def k_def)
  show ?thesis
  proof (cases "0 \<le> k \<and> b * 2 ^ nat k \<le> a")
    case False
    then have "floorLog2 a b \<le> k - 1 \<or> k < 0" unfolding fdef by auto
    moreover have "floorLog2 a b \<le> k" unfolding fdef by simp
    ultimately show ?thesis using kw by linarith
  next
    case True
    then have f: "floorLog2 a b = k" unfolding fdef by simp
    from True have "b * 2 ^ nat k < 2 ^ w * b" using assms(3) by linarith
    then have "(2::int) ^ nat k < 2 ^ w" using assms(2) by (simp add: mult.commute)
    then have "nat k < w" by simp
    then show ?thesis using f True by linarith
  qed
qed

lemma round64_floor:
  assumes "0 < x" "x < 2 ^ 47" "1 / 64 \<le> of_int \<lfloor>x\<rfloor> + 1 - x"
  shows "\<exists>y. round64 x = Fin y \<and> \<lfloor>y\<rfloor> = \<lfloor>x\<rfloor>"
proof -
  obtain a b where q: "quotient_of x = (a, b)" by (cases "quotient_of x") auto
  have b: "0 < b" using quotient_of_denom_pos[OF q] .
  have x: "x = of_int a / of_int b" using quotient_of_div[OF q] .
  have a: "0 < a" using assms(1) b unfolding x by (simp add: zero_less_divide_iff)
  have "(of_int a :: rat) < 2 ^ 47 * of_int b" using assms(2) b unfolding x by (simp add: divide_less_eq)
  then have "(of_int a :: rat) < of_int (2 ^ 47 * b)" by simp
  then have ab: "a < 2 ^ 47 * b" by (simp only: of_int_less_iff)
  define e where "e = ulpExponent a b"
  have "floorLog2 a b < 47" using floorLog2_upper[OF a b ab] by simp
  then have e: "e \<le> - 6" by (simp add: e_def ulpExponent_def)
  define s where "s = nat (- e)"
  have s: "6 \<le> s" using e by (simp add: s_def)
  define t :: int where "t = 2 ^ (s - 5)"
  have t: "2 \<le> t"
  proof -
    have "(2::int) ^ 1 \<le> 2 ^ (s - 5)" by (rule power_increasing) (use s in simp_all)
    then show ?thesis by (simp add: t_def)
  qed
  have p: "(2::int) ^ s = 32 * t"
  proof -
    have "s = 5 + (s - 5)" using s by simp
    then have "(2::int) ^ s = 2 ^ 5 * 2 ^ (s - 5)" by (metis power_add)
    then show ?thesis by (simp add: t_def)
  qed
  define N where "N = a * 2 ^ s"
  define m where "m = scaledRound a b e"
  have m: "m = round_half_even_div N b" using e by (simp add: m_def scaledRound_def N_def s_def)
  define K where "K = a div b"
  have fx: "\<lfloor>x\<rfloor> = K" unfolding x K_def by (rule floor_divide_of_int_eq)
  have fK: "N div b div 2 ^ s = K"
  proof -
    have "N div b div 2 ^ s = N div (b * 2 ^ s)" by (simp add: zdiv_zmult2_eq b less_imp_le)
    also have "\<dots> = a div b" by (simp add: N_def)
    finally show ?thesis by (simp add: K_def)
  qed
  have mK: "m div 2 ^ s = K"
  proof -
    from round_half_even_div_cases[OF b, of N] m
    consider "m = N div b" | "m = N div b + 1" "b \<le> 2 * (N mod b)" by auto
    then show ?thesis
    proof cases
      case 1
      then show ?thesis using fK by simp
    next
      case 2
      define f where "f = N div b"
      have pos: "(0::int) < 2 ^ s" by simp
      have fd: "f = 2 ^ s * K + f mod 2 ^ s"
        using fK mult_div_mod_eq[of "2 ^ s" f] by (simp add: f_def)
      have r0: "0 \<le> f mod 2 ^ s" and r1: "f mod 2 ^ s < 2 ^ s" by simp_all
      have c: "K * 2 ^ s = 2 ^ s * K" "(K + 1) * 2 ^ s = 2 ^ s * K + 2 ^ s"
        by (simp_all add: algebra_simps)
      have lo: "K * 2 ^ s \<le> f"
        unfolding c using fd r0 by linarith
      have hi: "f < (K + 1) * 2 ^ s"
        unfolding c using fd r1 by linarith
      have ne: "f + 1 \<noteq> (K + 1) * 2 ^ s"
      proof
        assume eq: "f + 1 = (K + 1) * 2 ^ s"
        have Nfr: "N = f * b + N mod b" by (simp add: f_def)
        have A: "(2 * f + 1) * b \<le> 2 * N" using 2(2) Nfr by (simp add: algebra_simps)
        have "x \<le> of_int K + 63 / 64" using assms(3) fx by simp
        then have "of_int a \<le> (of_int K + 63 / 64) * (of_int b :: rat)"
          using b unfolding x by (simp add: divide_le_eq)
        then have "(64 * of_int a :: rat) \<le> (64 * of_int K + 63) * of_int b"
          by (simp add: algebra_simps)
        then have "(of_int (64 * a) :: rat) \<le> of_int ((64 * K + 63) * b)" by simp
        then have B: "64 * a \<le> (64 * K + 63) * b" by (simp only: of_int_le_iff)
        have f2: "2 * f + 1 = 64 * (K + 1) * t - 1" using eq p by (simp add: algebra_simps)
        have N2: "2 * N = 64 * a * t" by (simp add: N_def p)
        from A have A': "(64 * (K + 1) * t - 1) * b \<le> 64 * a * t" by (simp only: f2 N2)
        from B t have "64 * a * t \<le> (64 * K + 63) * b * t" by (simp add: mult_right_mono)
        with A' have "(64 * (K + 1) * t - 1) * b \<le> (64 * K + 63) * b * t" by linarith
        then have "t * b \<le> b" by (simp add: algebra_simps)
        moreover have "2 * b \<le> t * b" using t b by simp
        ultimately show False using b by linarith
      qed
      have "m = f + 1" using 2(1) by (simp add: f_def)
      moreover have "f + 1 < (K + 1) * 2 ^ s" using hi ne by linarith
      moreover have "K * 2 ^ s \<le> f + 1" using lo by linarith
      ultimately have b1: "0 \<le> m - 2 ^ s * K" and b2: "m - 2 ^ s * K < 2 ^ s"
        by (simp_all add: algebra_simps)
      have "m = 2 ^ s * K + (m - 2 ^ s * K)" by simp
      then show ?thesis using b1 b2 by (rule int_div_pos_eq)
    qed
  qed
  have r: "round64 x = Fin (of_int m * pow2 e)"
    using round64_pos[OF q a] e unfolding e_def m_def by simp
  have pe: "pow2 e = 1 / of_int (2 ^ s)" using e by (simp add: pow2_def s_def)
  have "\<lfloor>of_int m * pow2 e\<rfloor> = m div 2 ^ s"
    unfolding pe using floor_divide_of_int_eq[of m "2 ^ s", where ?'a = rat] by simp
  then show ?thesis using r mK fx by simp
qed

subsection \<open>Helper lemmas: the time codec\<close>

lemma isDigit_not_special:
  "isDigit c \<Longrightarrow> c \<noteq> CHR '':'' \<and> \<not> isStrWhiteSpaceChar c \<and> c \<noteq> CHR ''+'' \<and> c \<noteq> CHR ''-''
     \<and> c \<noteq> CHR ''I'' \<and> c \<notin> set ''xX'' \<and> c \<notin> set ''oO'' \<and> c \<notin> set ''bB''"
  by (auto simp: isDigit_def isStrWhiteSpaceChar_def)

lemma dropWhile_none: "(\<forall>x\<in>set xs. \<not> P x) \<Longrightarrow> dropWhile P xs = xs"
  by (cases xs) simp_all

lemma trimString_digits: "list_all isDigit ds \<Longrightarrow> trimString ds = ds"
  by (simp add: trimString_def dropWhile_none list_all_iff isDigit_not_special)

lemma unsignedDecimal_digits:
  assumes "ds \<noteq> []" "list_all isDigit ds"
  shows "unsignedDecimal ds = round64 (of_int (radixValue 10 ds))"
proof -
  have all: "\<forall>x\<in>set ds. isDigit x" using assms(2) by (simp add: list_all_iff)
  have tw: "takeWhile isDigit ds = ds" using all by (simp add: takeWhile_eq_all_conv)
  have dw: "dropWhile isDigit ds = []" using all by (simp add: dropWhile_eq_Nil_conv)
  have "hd ds \<noteq> CHR ''I''" using assms(1) all isDigit_not_special by (cases ds) auto
  then have ni: "ds \<noteq> ''Infinity''" by auto
  show ?thesis
    using assms(1) ni by (simp add: unsignedDecimal_def tw dw Let_def scale10_def radixValue_def)
qed

lemma Number_digits:
  assumes "ds \<noteq> []" "list_all isDigit ds"
  shows "Number ds = round64 (of_int (radixValue 10 ds))"
proof -
  obtain c r where ds: "ds = c # r" using assms(1) by (cases ds) auto
  have c: "isDigit c" and r: "list_all isDigit r" using assms(2) ds by simp_all
  have hr: "r \<noteq> [] \<Longrightarrow> isDigit (hd r)" using r by (cases r) simp_all
  have nx: "\<not> (r \<noteq> [] \<and> hd r \<in> set ''xX'')" "\<not> (r \<noteq> [] \<and> hd r \<in> set ''oO'')"
    "\<not> (r \<noteq> [] \<and> hd r \<in> set ''bB'')"
    using hr isDigit_not_special by blast+
  have cs: "c \<noteq> CHR ''+''" "c \<noteq> CHR ''-''" using c isDigit_not_special by blast+
  have "Number ds = unsignedDecimal ds"
    unfolding Number_def trimString_digits[OF assms(2)] using nx cs by (auto simp: ds)
  then show ?thesis using unsignedDecimal_digits[OF assms] by simp
qed

lemma digitVal_range: "isDigit c \<Longrightarrow> 0 \<le> digitVal c \<and> digitVal c \<le> 9"
  by (auto simp: isDigit_def digitVal_def)

lemma radixValue_snoc: "radixValue 10 (ds @ [c]) = radixValue 10 ds * 10 + digitVal c"
  by (simp add: radixValue_def)

lemma radixValue_bounds:
  "list_all isDigit ds \<Longrightarrow> 0 \<le> radixValue 10 ds \<and> radixValue 10 ds < 10 ^ length ds"
proof (induction ds rule: rev_induct)
  case Nil
  show ?case by (simp add: radixValue_def)
next
  case (snoc c ds)
  then have ih: "0 \<le> radixValue 10 ds" "radixValue 10 ds < 10 ^ length ds" by simp_all
  have d: "0 \<le> digitVal c" "digitVal c \<le> 9" using snoc.prems digitVal_range by simp_all
  have "radixValue 10 ds + 1 \<le> 10 ^ length ds" using ih(2) by simp
  then have "(radixValue 10 ds + 1) * 10 \<le> 10 ^ length ds * 10" by (simp only: mult_right_mono)
  then show ?case using ih(1) d by (simp add: radixValue_snoc algebra_simps)
qed

lemma radixValue_small:
  assumes "list_all isDigit ds" "length ds \<le> 14"
  shows "0 \<le> radixValue 10 ds \<and> radixValue 10 ds < 10 ^ 14"
proof -
  have "(10::int) ^ length ds \<le> 10 ^ 14" using assms(2) by (intro power_increasing) simp_all
  then show ?thesis using radixValue_bounds[OF assms(1)] by linarith
qed

lemma split_colon_free: "CHR '':'' \<notin> set m \<Longrightarrow> split_colon m = [m]"
  by (induction m) auto

lemma split_colon_first:
  "CHR '':'' \<notin> set h \<Longrightarrow> split_colon (h @ CHR '':'' # r) = h # split_colon r"
  by (induction h) auto

lemma or_zero_Fin [simp]: "or_zero (Some (Fin x)) = Fin x"
  by (cases "x = 0") simp_all

lemma or_zero_Some: "y \<noteq> NaN \<Longrightarrow> or_zero (Some y) = y"
  by (cases y) simp_all

lemma or_zero_round64 [simp]: "or_zero (Some (round64 x)) = round64 x"
proof -
  have "round64 x \<noteq> NaN" by (auto simp: round64_def Let_def split: prod.splits)
  then show ?thesis by (rule or_zero_Some)
qed

lemma parseTime_digit_strings_general:
  assumes "h \<noteq> []" "m \<noteq> []" "list_all isDigit h" "list_all isDigit m"
  shows "parseTime (h @ '':'' @ m)
         = num_add (num_mul (round64 (of_int (radixValue 10 h))) (Fin 60))
                   (round64 (of_int (radixValue 10 m)))"
proof -
  have ch: "CHR '':'' \<notin> set h" and cm: "CHR '':'' \<notin> set m"
    using assms(3,4) isDigit_not_special by (auto simp: list_all_iff)
  have sp: "split_colon (h @ CHR '':'' # m) = [h, m]"
    using split_colon_first[OF ch, of m] split_colon_free[OF cm] by simp
  show ?thesis
    by (simp add: parseTime_def sp Number_digits assms Let_def)
qed

lemma parseTime_digit_strings:
  assumes "h \<noteq> []" "m \<noteq> []" "list_all isDigit h" "list_all isDigit m"
    and "length h \<le> 14" "length m \<le> 14"
  shows "parseTime (h @ '':'' @ m) = Fin (of_int (radixValue 10 h * 60 + radixValue 10 m))"
proof -
  let ?H = "radixValue 10 h" and ?M = "radixValue 10 m"
  have ch: "CHR '':'' \<notin> set h" and cm: "CHR '':'' \<notin> set m"
    using assms(3,4) isDigit_not_special by (auto simp: list_all_iff)
  have sp: "split_colon (h @ CHR '':'' # m) = [h, m]"
    using split_colon_first[OF ch, of m] split_colon_free[OF cm] by simp
  have H: "0 \<le> ?H" "?H < 10 ^ 14" using radixValue_small[OF assms(3,5)] by simp_all
  have M: "0 \<le> ?M" "?M < 10 ^ 14" using radixValue_small[OF assms(4,6)] by simp_all
  have nh: "Number h = Fin (of_int ?H)"
    using Number_digits[OF assms(1,3)] round64_int_exact[of ?H] H by simp
  have nm: "Number m = Fin (of_int ?M)"
    using Number_digits[OF assms(2,4)] round64_int_exact[of ?M] M by simp
  have mul: "round64 (of_int ?H * 60) = Fin (of_int ?H * 60)"
    using round64_int_exact[of "?H * 60"] H by simp
  have add: "round64 (of_int ?H * 60 + of_int ?M) = Fin (of_int ?H * 60 + of_int ?M)"
    using round64_int_exact[of "?H * 60 + ?M"] H M by simp
  show ?thesis
    by (simp add: parseTime_def sp nh nm mul add Let_def)
qed

declare decimalDigits.simps [simp del]

lemma digit_char: "isDigit c \<Longrightarrow> char_of (48 + digitVal c) = c"
proof -
  assume d: "isDigit c"
  then have "(of_char c :: int) = 48 + digitVal c" by (auto simp: isDigit_def digitVal_def)
  then have "char_of (48 + digitVal c) = char_of (of_char c :: int)" by simp
  then show ?thesis by simp
qed

lemma char_of_48: "char_of (48::int) = CHR ''0''"
  by code_simp

lemma decimalDigits_two:
  assumes "0 \<le> x" "x < 10" "0 \<le> y" "y < 10"
  shows "padStart2 (decimalDigits (x * 10 + y)) = [char_of (48 + x), char_of (48 + y)]"
proof (cases "x = 0")
  case True
  then show ?thesis using assms by (simp add: decimalDigits.simps[of y] padStart2_def char_of_48)
next
  case False
  then have "\<not> x * 10 + y < 10" using assms by simp
  moreover have "(x * 10 + y) div 10 = x" "(x * 10 + y) mod 10 = y" using assms by simp_all
  ultimately show ?thesis using assms
    by (simp add: decimalDigits.simps[of "x * 10 + y"] decimalDigits.simps[of x] padStart2_def)
qed

lemma intToString_small: "0 \<le> n \<Longrightarrow> n < 2 ^ 53 \<Longrightarrow> intToString n = decimalDigits n"
  by (simp add: intToString_def integerToString_def)

lemma two_digits:
  assumes "isDigit a" "isDigit b"
  shows "padStart2 (intToString (radixValue 10 [a, b])) = [a, b]"
proof -
  let ?x = "digitVal a" and ?y = "digitVal b"
  have ra: "0 \<le> ?x" "?x \<le> 9" and rb: "0 \<le> ?y" "?y \<le> 9"
    using digitVal_range assms by simp_all
  have r: "radixValue 10 [a, b] = ?x * 10 + ?y" by (simp add: radixValue_def)
  have "intToString (?x * 10 + ?y) = decimalDigits (?x * 10 + ?y)"
    using ra rb by (intro intToString_small) simp_all
  then show ?thesis
    unfolding r
    using decimalDigits_two[of ?x ?y] ra rb digit_char[OF assms(1)] digit_char[OF assms(2)] by simp
qed

lemma one_digit:
  assumes "isDigit a"
  shows "padStart2 (intToString (radixValue 10 [a])) = [CHR ''0'', a]"
proof -
  have "radixValue 10 [a] = radixValue 10 [CHR ''0'', a]" by (simp add: radixValue_def digitVal_def isDigit_def)
  moreover have "isDigit (CHR ''0'')" by (simp add: isDigit_def)
  ultimately show ?thesis using two_digits[of "CHR ''0''" a] assms by simp
qed

lemma formatTime_int:
  assumes "0 \<le> n" "n < 2 ^ 47"
  shows "formatTime (Fin (of_int n))
         = padStart2 (intToString (n div 60)) @ '':'' @ padStart2 (intToString (n mod 60))"
proof -
  have fl: "\<lfloor>(of_int n :: rat) / 60\<rfloor> = n div 60"
    using floor_divide_of_int_eq[of n 60, where ?'a = rat] by simp
  have split: "(of_int n :: rat) = of_int (n div 60) * 60 + of_int (n mod 60)"
  proof -
    have "n = n div 60 * 60 + n mod 60" by simp
    then have "(of_int n :: rat) = of_int (n div 60 * 60 + n mod 60)" by simp
    then show ?thesis by (simp only: of_int_add of_int_mult of_int_numeral)
  qed
  have d: "\<exists>y. num_div (Fin (of_int n)) (Fin 60) = Fin y \<and> \<lfloor>y\<rfloor> = n div 60"
  proof (cases "n = 0")
    case True
    then show ?thesis by simp
  next
    case False
    then have pos: "(0::rat) < of_int n / 60" using assms(1) by simp
    have "(of_int n :: rat) < 2 ^ 47"
    proof -
      have "(of_int n :: rat) < of_int (2 ^ 47)" using assms(2) by (simp only: of_int_less_iff)
      then show ?thesis by simp
    qed
    then have up: "(of_int n :: rat) / 60 < 2 ^ 47" using assms(1) by simp
    have "n mod 60 \<le> 59" by simp
    then have "(of_int (n mod 60) :: rat) \<le> 59" by (metis of_int_le_iff of_int_numeral)
    then have fr: "(1::rat) / 64 \<le> of_int \<lfloor>(of_int n :: rat) / 60\<rfloor> + 1 - of_int n / 60"
    proof -
      define K r where "K = (of_int (n div 60) :: rat)" and "r = (of_int (n mod 60) :: rat)"
      have n: "(of_int n :: rat) = K * 60 + r" unfolding K_def r_def by (rule split)
      have "r \<le> 59" unfolding r_def by fact
      then have "r / 60 \<le> 59 / 60" by simp
      moreover have "(K * 60 + r) / 60 = K + r / 60" by (simp add: add_divide_distrib)
      ultimately have "1 / 64 \<le> K + 1 - (K * 60 + r) / 60" by linarith
      then have "1 / 64 \<le> K + 1 - of_int n / 60" by (simp only: n)
      then show ?thesis unfolding fl K_def .
    qed
    obtain y where "round64 (of_int n / 60) = Fin y" "\<lfloor>y\<rfloor> = \<lfloor>(of_int n :: rat) / 60\<rfloor>"
      using round64_floor[OF pos up fr] by blast
    then show ?thesis using fl by simp
  qed
  have nn: "(0::rat) \<le> of_int n / 60" using assms(1) by simp
  have r: "num_rem (Fin (of_int n)) (Fin 60) = Fin (of_int (n mod 60))"
  proof -
    have "(of_int n :: rat) - 60 * of_int (n div 60) = of_int (n mod 60)"
      by (subst split) simp
    then show ?thesis using nn fl by (simp add: truncate_rat_def)
  qed
  obtain y where y: "num_div (Fin (of_int n)) (Fin 60) = Fin y" "\<lfloor>y\<rfloor> = n div 60"
    using d by blast
  show ?thesis unfolding formatTime_def Let_def y(1) r using y(2) by simp
qed

lemma radix_two_bound:
  assumes "m1 \<in> set ''012345''" "isDigit m2"
  shows "0 \<le> radixValue 10 [m1, m2] \<and> radixValue 10 [m1, m2] < 60"
proof -
  have "0 \<le> digitVal m1 \<and> digitVal m1 \<le> 5" using assms(1) by (auto simp: digitVal_def isDigit_def)
  moreover have "0 \<le> digitVal m2 \<and> digitVal m2 \<le> 9" using digitVal_range[OF assms(2)] .
  ultimately show ?thesis by (simp add: radixValue_def)
qed

lemma timeRegex_test_length: "timeRegex_test s \<Longrightarrow> length s = 4 \<or> length s = 5"
  by (auto simp: timeRegex_test_def split: list.splits)

lemma formatTime_parseTime_hm:
  assumes "h \<noteq> []" "list_all isDigit h" "length h \<le> 2" "m1 \<in> set ''012345''" "isDigit m2"
  shows "formatTime (parseTime (h @ '':'' @ [m1, m2]))
         = padStart2 (intToString (radixValue 10 h)) @ '':'' @ [m1, m2]"
proof -
  let ?H = "radixValue 10 h" and ?M = "radixValue 10 [m1, m2]"
  have dm1: "isDigit m1" using assms(4) by (auto simp: isDigit_def)
  have p: "parseTime (h @ '':'' @ [m1, m2]) = Fin (of_int (?H * 60 + ?M))"
    using parseTime_digit_strings[of h "[m1, m2]"] assms dm1 by simp
  have "(10::int) ^ length h \<le> 10 ^ 2" using assms(3) by (intro power_increasing) simp_all
  then have H: "0 \<le> ?H" "?H < 100" using radixValue_bounds[OF assms(2)] by simp_all
  have M: "0 \<le> ?M" "?M < 60" using radix_two_bound[OF assms(4,5)] by simp_all
  have dv: "(?H * 60 + ?M) div 60 = ?H" "(?H * 60 + ?M) mod 60 = ?M" using M by simp_all
  have "0 \<le> ?H * 60 + ?M" "?H * 60 + ?M < 2 ^ 47" using H M by simp_all
  then show ?thesis
    unfolding p using formatTime_int[of "?H * 60 + ?M"] two_digits[OF dm1 assms(5)]
    by (simp only: dv)
qed


subsection \<open>The doubles of the program's literals\<close>

lemma literal_doubles:
  "lit 1 = Fin 1"
  "lit (12 / 10) = Fin (5404319552844595 / 4503599627370496)"
  "lit (15 / 10) = Fin (3 / 2)"
  "lit (13 / 10) = Fin (5854679515581645 / 4503599627370496)"
  "lit (1 / 10) = Fin (3602879701896397 / 36028797018963968)"
  "lit (3 / 10) = Fin (5404319552844595 / 18014398509481984)"
  "lit (5 / 100) = Fin (3602879701896397 / 72057594037927936)"
  "lit (7 / 10) = Fin (3152519739159347 / 4503599627370496)"
  by code_simp+

lemma rounding_examples:
  "num_add (lit (1 / 10)) (lit (2 / 10)) = Fin (1351079888211149 / 4503599627370496)"
  "num_mul (Fin 3) (lit (12 / 10)) = Fin (8106479329266892 / 2251799813685248)"
  "round64 (2 ^ 53 + 1) = Fin (2 ^ 53)"
  "round64 (2 ^ 1024) = PInf"
  "Number ''9007199254740993'' = Fin 9007199254740992"
  "parseTime ''9007199254740993:00'' = Fin 540431955284459520"
  by code_simp+

subsection \<open>The time codec\<close>

text \<open>
  Claim C4 (as amended). A start time that does not match the time pattern is rejected by
  the route handler with a 400 response, before the service is called and with the tables
  unchanged. \<^verbatim>\<open>parseTime\<close> itself checks no pattern and raises no format error: on every
  string \<open>h:m\<close> whose two parts are non-empty strings of decimal digits it returns the
  double of \<open>h\<close> times 60 plus the double of \<open>m\<close>, in the arithmetic of doubles; when
  both parts have at most 14 digits this is the value of \<open>h\<close> times 60 plus the value of
  \<open>m\<close>, whatever their range.
\<close>

theorem time_validated_by_handler_only:
  "(\<not> timeRegex_test (routeStartTime body) \<longrightarrow>
      (\<exists>msg. postRun body userId db = (Status400 msg, db)))
   \<and> (h \<noteq> [] \<and> m \<noteq> [] \<and> list_all isDigit h \<and> list_all isDigit m \<longrightarrow>
        parseTime (h @ '':'' @ m)
          = num_add (num_mul (round64 (of_int (radixValue 10 h))) (Fin 60))
                    (round64 (of_int (radixValue 10 m)))
        \<and> (length h \<le> 14 \<and> length m \<le> 14 \<longrightarrow>
             parseTime (h @ '':'' @ m) = Fin (of_int (radixValue 10 h * 60 + radixValue 10 m))))"
  using parseTime_digit_strings[of h m] parseTime_digit_strings_general[of h m]
  by (simp add: postRun_def)

theorem time_validated_by_handler_only_witness:
  "postRun (scenarioRequest\<lparr>routeStartTime := ''31:75''\<rparr>) None scenarioDb
     = (Status400 ''Route start time must be in HH:MM format'', scenarioDb)
   \<and> parseTime ''31:75'' = Fin 1935"
proof -
  have n: "\<not> timeRegex_test (routeStartTime (scenarioRequest\<lparr>routeStartTime := ''31:75''\<rparr>))"
    by (simp add: timeRegex_test_def isDigit_def)
  have d: "''31'' \<noteq> [] \<and> ''75'' \<noteq> [] \<and> list_all isDigit ''31'' \<and> list_all isDigit ''75''"
    by (simp add: isDigit_def)
  have l: "length ''31'' \<le> 14 \<and> length ''75'' \<le> 14" by simp
  from time_validated_by_handler_only[of "scenarioRequest\<lparr>routeStartTime := ''31:75''\<rparr>" None scenarioDb "''31''" "''75''"]
    n d l
  have e: "\<exists>msg. postRun (scenarioRequest\<lparr>routeStartTime := ''31:75''\<rparr>) None scenarioDb
                   = (Status400 msg, scenarioDb)"
    and p: "parseTime (''31'' @ '':'' @ ''75'') = Fin (of_int (radixValue 10 ''31'' * 60 + radixValue 10 ''75''))"
    by blast+
  have "postRun (scenarioRequest\<lparr>routeStartTime := ''31:75''\<rparr>) None scenarioDb
        = (Status400 ''Route start time must be in HH:MM format'', scenarioDb)"
    using e n by (simp add: postRun_def scenarioRequest_def falsy_def)
  moreover have "parseTime ''31:75'' = Fin 1935"
    using p by (simp add: radixValue_def digitVal_def isDigit_def)
  ultimately show ?thesis by simp
qed

text \<open>
  The claim as stated fails: \<open>25:99\<close> does not match the pattern, \<^verbatim>\<open>parseTime\<close>
  returns the number 1599 for it, and a run of the scenario with this start time delivers
  the three orders.
\<close>

theorem parseTime_unvalidated_counterexample:
  "\<not> timeRegex_test ''25:99'' \<and> parseTime ''25:99'' = Fin 1599
   \<and> map_sum id (\<lambda>(result, db). totalDeliveries result)
         (runSimulation (scenarioRequest\<lparr>routeStartTime := ''25:99''\<rparr>) None scenarioDb) = Inr 3"
  by code_simp

text \<open>
  Claim C5 (as amended). For every string that matches the time pattern, formatting the
  parsed time gives the string back when the hour has two digits, and the string with a
  zero in front when the hour has one digit.
\<close>

theorem formatTime_parseTime_padded:
  assumes "timeRegex_test s"
  shows "formatTime (parseTime s) = (if length s = 5 then s else CHR ''0'' # s)"
proof -
  consider (short) "length s = 4" | (long) "length s = 5"
    using timeRegex_test_length[OF assms] by blast
  then show ?thesis
  proof cases
    case short
    then obtain h c m1 m2 where s: "s = [h, c, m1, m2]"
      by (auto simp: length_Suc_conv eval_nat_numeral)
    have c: "c = CHR '':''" and m1: "m1 \<in> set ''012345''" and m2: "isDigit m2" and h: "isDigit h"
      using assms unfolding s timeRegex_test_def by simp_all
    show ?thesis
      using formatTime_parseTime_hm[of "[h]" m1 m2] h m1 m2 one_digit[OF h] by (simp add: s c)
  next
    case long
    then obtain h1 h2 c m1 m2 where s: "s = [h1, h2, c, m1, m2]"
      by (auto simp: length_Suc_conv eval_nat_numeral)
    have c: "c = CHR '':''" and m1: "m1 \<in> set ''012345''" and m2: "isDigit m2"
      and h: "(h1 \<in> set ''01'' \<and> isDigit h2) \<or> (h1 = CHR ''2'' \<and> h2 \<in> set ''0123'')"
      using assms unfolding s timeRegex_test_def by simp_all
    have dh1: "isDigit h1" and dh2: "isDigit h2" using h by (auto simp: isDigit_def)
    show ?thesis
      using formatTime_parseTime_hm[of "[h1, h2]" m1 m2] dh1 dh2 m1 m2 two_digits[OF dh1 dh2]
      by (simp add: s c)
  qed
qed

theorem formatTime_parseTime_padded_witness:
  "formatTime (parseTime ''23:59'') = ''23:59'' \<and> formatTime (parseTime ''9:05'') = ''09:05''"
  using formatTime_parseTime_padded[of "''23:59''"] formatTime_parseTime_padded[of "''9:05''"]
  by (simp add: timeRegex_test_def isDigit_def)

text \<open>
  The claim as stated fails: \<open>9:05\<close> matches the pattern, and comes back as \<open>09:05\<close>.
\<close>

theorem roundtrip_counterexample:
  "timeRegex_test ''9:05'' \<and> formatTime (parseTime ''9:05'') = ''09:05''
   \<and> formatTime (parseTime ''9:05'') \<noteq> ''9:05''"
  by code_simp

subsection \<open>Delivery time\<close>

lemma calculateDeliveryTime_duration:
  "calculateDeliveryTime route driver t = duration route driver"
  by (cases "trafficLevel route") (simp_all add: calculateDeliveryTime_def duration_def Let_def)

lemma num_mul_commute: "num_mul a b = num_mul b a"
  by (cases a; cases b) (simp_all add: mult.commute)

text \<open>
  In medium traffic, a base time of 10 minutes and a driver who worked 10 hours the day
  before give 15.600000000000001 minutes, the double that the two multiplications of the
  service return.
\<close>

lemma calculateDeliveryTime_example:
  "calculateDeliveryTime
     \<lparr>r_id = 1, distanceKm = Fin 1, trafficLevel = MEDIUM, baseTimeMin = Fin 10, r_isActive = True\<rparr>
     scenarioD2 (Fin 0)
   = Fin (2195504818343117 / 140737488355328)"
  by code_simp

text \<open>
  Claim C6. The delivery time of a route for a driver is the route's base time, times the
  traffic multiplier (LOW 1.0, MEDIUM 1.2, HIGH 1.5), times 1.3 exactly when the driver's
  hours of the last day of the past week exceed 8, each product rounded as a product of
  doubles is; it does not depend on the clock time that is passed to it.
\<close>

theorem calculateDeliveryTime_pure:
  "calculateDeliveryTime route driver t =
     (let base = num_mul (baseTimeMin route)
                   (case trafficLevel route of
                      LOW \<Rightarrow> lit 1 | MEDIUM \<Rightarrow> lit (12 / 10) | HIGH \<Rightarrow> lit (15 / 10))
      in if 6 < length (pastWeekHours driver) \<and> num_lt (Fin 8) (pastWeekHours driver ! 6)
         then num_mul base (lit (13 / 10))
         else base)
   \<and> calculateDeliveryTime route driver t = calculateDeliveryTime route driver t'"
  by (cases "trafficLevel route") (simp_all add: calculateDeliveryTime_def Let_def)

subsection \<open>Summary and recommendations\<close>

text \<open>
  One late order of 551.05 on a route of 0.21 km in low traffic: the profit is
  499.99999999999994 and the penalties are 50. A tenth of the profit is the double 50,
  so the rule on the penalties does not fire.
\<close>

lemma generateSummary_example:
  "map_sum id (\<lambda>r. (totalProfit r, penalties r, recommendations (summary (simulationData r))))
     (simulate [scenarioD1]
        [\<lparr>o_id = 1, orderId = ''L1'', valueRs = lit (55105 / 100), routeId = 1,
          deliveryTime = ''00:05'', o_isActive = True\<rparr>]
        [\<lparr>r_id = 1, distanceKm = lit (21 / 100), trafficLevel = LOW, baseTimeMin = Fin 30,
          r_isActive = True\<rparr>]
        ''08:00'' (Fin 8))
   = Inr (Fin (8796093022207999 / 17592186044416), Fin 50,
          [''Consider optimizing driver assignments to improve efficiency'',
           ''Low bonus earnings - focus on high-value order prioritization''])"
  by code_simp

text \<open>
  Claim C8. The profit margin of the summary is profit / (profit + fuel cost + penalties)
  times 100 when the profit is positive and 0 otherwise, and the recommendations are
  exactly the messages of the four rules that fire, each rule evaluated on its own, in
  the order of the rules. The quotient, the sums and the products by 0.1, 0.3 and 0.05
  are those of doubles.
\<close>

theorem generateSummary_rules:
  "generateSummary nOrders nRoutes eff profit fuel pens bons =
     \<lparr>totalOrders = nOrders,
      totalRoutes = nRoutes,
      averageEfficiency = eff,
      profitMargin =
        (if num_lt (Fin 0) profit
         then num_mul (num_div profit (num_add (num_add profit fuel) pens)) (Fin 100)
         else Fin 0),
      recommendations =
        map snd (filter fst
          [(num_lt eff (Fin 70),
            ''Consider optimizing driver assignments to improve efficiency''),
           (num_lt (num_mul (lit (1 / 10)) profit) pens,
            ''High penalty costs suggest need for better route planning and time management''),
           (num_lt (num_mul (lit (3 / 10)) profit) fuel,
            ''Fuel costs are high - consider route optimization and traffic avoidance''),
           (num_lt bons (num_mul (lit (5 / 100)) profit),
            ''Low bonus earnings - focus on high-value order prioritization'')])\<rparr>"
  by (simp add: generateSummary_def Let_def num_mul_commute[of _ profit])

subsection \<open>The driver count of the request\<close>

text \<open>
  Claim C9. Two requests that differ only in their driver count, run on the same tables,
  fail alike or return the same result; the driver count only shows in the saved row.
\<close>

theorem runSimulation_driverCount:
  "runSimulation (request\<lparr>driverCount := n\<rparr>) userId db =
     map_sum id
       (\<lambda>(result, db'). (result,
          db'\<lparr>simulationTable :=
                 butlast (simulationTable db') @ [(last (simulationTable db'))\<lparr>db_driverCount := n\<rparr>]\<rparr>))
       (runSimulation request userId db)"
  by (simp add: runSimulation_def saveSimulation_def Let_def split: sum.splits)

subsection \<open>Driver efficiency in the worked scenario\<close>

text \<open>
  Claim C1, evaluated on the scenario of the specification. The running total of a driver
  is not the sum of the driver's delivery times: each order replaces it by the order's
  delivery time minus the start clock of the assignment. Driver D1, with two deliveries of
  30 minutes from 08:00, is reported with -7.5 hours and an efficiency of -35.625, where
  the efficiency formula on the sum of the delivery times (60 minutes) gives
  38.74999999999999 (38.75 before rounding). Driver D2, with one delivery of 39 minutes
  from 08:30, is reported with -7.85 hours and an efficiency of about -39.76.
\<close>

theorem scenario_driver_efficiency:
  "map_sum id (\<lambda>r. map (\<lambda>d. (da_driverId d, totalHours d, efficiency d))
                      (driverAssignments (simulationData r)))
     (simulate [scenarioD1, scenarioD2] [scenarioO1, scenarioO2, scenarioO3] [scenarioR1]
        ''08:00'' (Fin 8))
   = Inr [(1, Fin (- (15 / 2)), Fin (- (285 / 8))),
          (2, Fin (- (4419157134357299 / 562949953421312)),
              Fin (- (5595571746841745 / 140737488355328)))]
   \<and> calculateDriverEfficiency scenarioD1
         (num_add (duration scenarioR1 scenarioD1) (duration scenarioR1 scenarioD1))
       = Fin (5453577673768959 / 140737488355328)"
  by code_simp

subsection \<open>Round-robin assignment\<close>

lemma assignLoop_append:
  "assignLoop ds rs st mx (xs @ ys) s =
     (case assignLoop ds rs st mx xs s of Inl e \<Rightarrow> Inl e | Inr s' \<Rightarrow> assignLoop ds rs st mx ys s')"
  by (induction xs arbitrary: s) (auto split: sum.splits)









lemma a_driverId_spec_assignment [simp]:
  "a_driverId (spec_assignment ds rs st mx os k d) = d"
  by (simp add: spec_assignment_def Let_def)








subsection \<open>Helper lemmas: the second loop of the run\<close>

lemmas delivery_defs = delivery_onTime_def delivery_penalty_def delivery_bonus_def
  delivery_fuel_def delivery_value_def spec_result_def spec_profit_def

lemma processOrder_view:
  assumes "processOrder d aStart os rs oid (t, ao, acc) = Inr (t', ao', acc')"
  shows "\<exists>p. lookupOrder os rs oid = Some p
           \<and> accView acc' = addDelivery (accView acc) (d, p)
           \<and> ao' = ao @ [oid]
           \<and> acc_driverAssignments acc' = acc_driverAssignments acc
           \<and> acc_totalDriverEfficiency acc' = acc_totalDriverEfficiency acc"
proof -
  obtain ord where o: "find (\<lambda>x. o_id x = oid) os = Some ord"
    using assms by (auto simp: processOrder_def split: option.splits)
  obtain route where r: "find (\<lambda>r. r_id r = routeId ord) rs = Some route"
    using assms o by (auto simp: processOrder_def split: option.splits)
  have l: "lookupOrder os rs oid = Some (ord, route)"
    by (simp add: lookupOrder_def o r)
  show ?thesis
    using assms
    by (auto simp: l processOrder_def o r Let_def accView_def addDelivery_def delivery_defs
        spec_isOnTime_def spec_penalty_def spec_bonus_def resultView_def
        calculateDeliveryTime_duration split: if_splits)
qed

lemma processOrders_view:
  assumes "processOrders d aStart os rs oids (t, ao, acc) = Inr (t', ao', acc')"
  shows "accView acc' = foldl addDelivery (accView acc)
                          (map (\<lambda>p. (d, p)) (List.map_filter (lookupOrder os rs) oids))
         \<and> length (List.map_filter (lookupOrder os rs) oids) = length oids
         \<and> ao' = ao @ oids
         \<and> acc_driverAssignments acc' = acc_driverAssignments acc
         \<and> acc_totalDriverEfficiency acc' = acc_totalDriverEfficiency acc"
  using assms
proof (induction oids arbitrary: t ao acc)
  case Nil
  then show ?case by (simp add: List.map_filter_simps)
next
  case (Cons oid oids)
  from Cons.prems obtain t1 ao1 acc1
    where s1: "processOrder d aStart os rs oid (t, ao, acc) = Inr (t1, ao1, acc1)"
      and s2: "processOrders d aStart os rs oids (t1, ao1, acc1) = Inr (t', ao', acc')"
    by (auto split: sum.splits)
  from processOrder_view[OF s1] obtain p where
    p: "lookupOrder os rs oid = Some p" "accView acc1 = addDelivery (accView acc) (d, p)"
       "ao1 = ao @ [oid]" "acc_driverAssignments acc1 = acc_driverAssignments acc"
       "acc_totalDriverEfficiency acc1 = acc_totalDriverEfficiency acc"
    by blast
  show ?case
    using Cons.IH[OF s2] p by (simp add: List.map_filter_simps)
qed

lemma processAssignment_view:
  assumes "processAssignment ds os rs a acc = Inr acc'"
  shows "accView acc' = foldl addDelivery (accView acc) (deliveriesOf ds os rs a)
         \<and> map assignedOrders (acc_driverAssignments acc')
             = map assignedOrders (acc_driverAssignments acc) @ [a_orderIds a]"
proof -
  obtain d where d: "find (\<lambda>d. d_id d = a_driverId a) ds = Some d"
    using assms by (auto simp: processAssignment_def split: option.splits)
  obtain t1 ao1 acc1 where
    po: "processOrders d (a_startTime a) os rs (a_orderIds a) (Fin 0, [], acc) = Inr (t1, ao1, acc1)"
    using assms d by (auto simp: processAssignment_def split: sum.splits)
  have acc': "acc' = acc1\<lparr>acc_driverAssignments := acc_driverAssignments acc1 @
       [\<lparr>da_driverId = d_id d, da_driverName = d_name d, assignedOrders = ao1,
         totalHours = num_div t1 (Fin 60), efficiency = calculateDriverEfficiency d t1\<rparr>],
       acc_totalDriverEfficiency := num_add (acc_totalDriverEfficiency acc1)
         (calculateDriverEfficiency d t1)\<rparr>"
    using assms d po by (simp add: processAssignment_def Let_def)
  show ?thesis
    using processOrders_view[OF po]
    by (simp add: acc' accView_def deliveriesOf_def d)
qed

lemma processAssignments_view:
  assumes "processAssignments ds os rs as acc = Inr acc'"
  shows "accView acc' = foldl addDelivery (accView acc) (deliveries ds os rs as)
         \<and> map assignedOrders (acc_driverAssignments acc')
             = map assignedOrders (acc_driverAssignments acc) @ map a_orderIds as"
  using assms
proof (induction as arbitrary: acc)
  case Nil
  then show ?case by (simp add: deliveries_def)
next
  case (Cons a as)
  from Cons.prems obtain acc1
    where s1: "processAssignment ds os rs a acc = Inr acc1"
      and s2: "processAssignments ds os rs as acc1 = Inr acc'"
    by (auto split: sum.splits)
  show ?case
    using Cons.IH[OF s2] processAssignment_view[OF s1] by (simp add: deliveries_def)
qed

lemma simulate_view:
  assumes "simulate ds os rs startStr maxH = Inr res"
  shows "\<exists>as. assignOrdersToDrivers ds os rs (parseTime startStr) (num_mul maxH (Fin 60)) = Inr as
           \<and> resultTotals res = foldl addDelivery (Fin 0, 0, []) (deliveries ds os rs as)
           \<and> map assignedOrders (driverAssignments (simulationData res)) = map a_orderIds as"
proof -
  obtain as where
    as: "assignOrdersToDrivers ds os rs (parseTime startStr) (num_mul maxH (Fin 60)) = Inr as"
    using assms by (auto simp: simulate_def Let_def split: if_splits sum.splits)
  obtain acc where acc: "processAssignments ds os rs as initialAcc = Inr acc"
    using assms as by (auto simp: simulate_def Let_def split: if_splits sum.splits)
  have "resultTotals res = accView acc
        \<and> driverAssignments (simulationData res) = acc_driverAssignments acc"
    using assms as acc
    by (auto simp: simulate_def Let_def resultTotals_def accView_def split: if_splits)
  then show ?thesis
    using processAssignments_view[OF acc] as by (simp add: accView_def initialAcc_def)
qed

lemma foldl_addDelivery:
  "foldl addDelivery (p, m, rv) xs =
     (foldl num_add p (map spec_profit xs), m + length xs, rv @ map spec_result xs)"
  by (induction xs arbitrary: p m rv) (simp_all add: addDelivery_def)

lemma simulate_totals:
  assumes "simulate ds os rs startStr maxH = Inr res"
    and "assignOrdersToDrivers ds os rs (parseTime startStr) (num_mul maxH (Fin 60)) = Inr as"
  shows "totalProfit res = foldl num_add (Fin 0) (map spec_profit (deliveries ds os rs as))"
    and "totalDeliveries res = length (deliveries ds os rs as)"
    and "map resultView (orderResults (simulationData res)) = map spec_result (deliveries ds os rs as)"
    and "map assignedOrders (driverAssignments (simulationData res)) = map a_orderIds as"
proof -
  from simulate_view[OF assms(1)] assms(2)
  have v: "resultTotals res = foldl addDelivery (Fin 0, 0, []) (deliveries ds os rs as)"
    and d: "map assignedOrders (driverAssignments (simulationData res)) = map a_orderIds as"
    by auto
  from v show "totalProfit res = foldl num_add (Fin 0) (map spec_profit (deliveries ds os rs as))"
    and "totalDeliveries res = length (deliveries ds os rs as)"
    and "map resultView (orderResults (simulationData res)) = map spec_result (deliveries ds os rs as)"
    by (simp_all add: resultTotals_def foldl_addDelivery)
  from d show "map assignedOrders (driverAssignments (simulationData res)) = map a_orderIds as" .
qed

subsection \<open>On-time rule, penalties and bonuses\<close>

text \<open>
  Claim C3. In a successful run, the order results are, delivery by delivery, what the
  rule gives: a delivery is on time exactly when the duration of its route for its driver
  (not a clock time) is at most the parsed expected time plus 10; a late delivery has
  penalty 50 and bonus 0; an on-time delivery of an order worth more than 1000 has as
  bonus the product of 0.1 and the value, as doubles, and penalty 0; otherwise both are 0.
\<close>

theorem orderResults_onTime_rule:
  assumes "simulate drivers orders routes startStr maxH = Inr res"
    and "assignOrdersToDrivers drivers orders routes (parseTime startStr) (num_mul maxH (Fin 60))
           = Inr as"
  shows "map (\<lambda>r. (or_orderId r, isOnTime r, penalty r, bonus r)) (orderResults (simulationData res))
         = map (\<lambda>(driver, ord, route).
                  let onTime = num_le (duration route driver)
                                      (num_add (parseTime (deliveryTime ord)) (Fin 10))
                  in (orderId ord, onTime,
                      if onTime then Fin 0 else Fin 50,
                      if onTime \<and> num_lt (Fin 1000) (valueRs ord)
                      then num_mul (lit (1 / 10)) (valueRs ord) else Fin 0))
               (deliveries drivers orders routes as)"
proof -
  have "map (\<lambda>r. (or_orderId r, isOnTime r, penalty r, bonus r)) (orderResults (simulationData res))
        = map (\<lambda>(a, b, c, d, e, f, g, h). (a, e, f, g))
            (map resultView (orderResults (simulationData res)))"
    by (simp add: resultView_def)
  also have "\<dots> = map (\<lambda>(a, b, c, d, e, f, g, h). (a, e, f, g))
                      (map spec_result (deliveries drivers orders routes as))"
    using simulate_totals(3)[OF assms] by simp
  also have "\<dots> = map (\<lambda>(driver, ord, route).
                  let onTime = num_le (duration route driver)
                                      (num_add (parseTime (deliveryTime ord)) (Fin 10))
                  in (orderId ord, onTime,
                      if onTime then Fin 0 else Fin 50,
                      if onTime \<and> num_lt (Fin 1000) (valueRs ord)
                      then num_mul (lit (1 / 10)) (valueRs ord) else Fin 0))
               (deliveries drivers orders routes as)"
    by (simp add: delivery_defs spec_isOnTime_def spec_penalty_def spec_bonus_def
        Let_def split_def num_mul_commute[of "lit (1 / 10)"])
  finally show ?thesis .
qed

text \<open>
  A run of the scenario's drivers on an order of 1001 due at 09:00, the order O2 and an
  order due at 00:15: the bonus of the first is the double 100.10000000000001, and the
  order due at 00:15 is late.
\<close>

theorem orderResults_onTime_rule_witness:
  "map_sum id (\<lambda>res. map (\<lambda>r. (or_orderId r, isOnTime r, penalty r, bonus r))
                          (orderResults (simulationData res)))
     (simulate [scenarioD1, scenarioD2] [roundingO1, scenarioO2, scenarioO4] [scenarioR1]
        ''08:00'' (Fin 8))
   = Inr [(''P1'', True, Fin 0, Fin (7043911292184167 / 70368744177664)),
          (''O4'', False, Fin 50, Fin 0),
          (''O2'', True, Fin 0, Fin 0)]"
proof -
  let ?ds = "[scenarioD1, scenarioD2]" and ?os = "[roundingO1, scenarioO2, scenarioO4]"
  let ?rs = "[scenarioR1]"
  let ?as = "[\<lparr>a_driverId = 1, a_orderIds = [21, 4], a_startTime = Fin 480\<rparr>,
              \<lparr>a_driverId = 2, a_orderIds = [2], a_startTime = Fin 510\<rparr>]"
  let ?rule = "\<lambda>(driver, ord, route).
                  let onTime = num_le (duration route driver)
                                      (num_add (parseTime (deliveryTime ord)) (Fin 10))
                  in (orderId ord, onTime,
                      if onTime then Fin 0 else Fin 50,
                      if onTime \<and> num_lt (Fin 1000) (valueRs ord)
                      then num_mul (lit (1 / 10)) (valueRs ord) else Fin 0)"
  have "\<not> isl (simulate ?ds ?os ?rs ''08:00'' (Fin 8))" by code_simp
  then obtain res where s: "simulate ?ds ?os ?rs ''08:00'' (Fin 8) = Inr res"
    by (cases "simulate ?ds ?os ?rs ''08:00'' (Fin 8)") auto
  have a: "assignOrdersToDrivers ?ds ?os ?rs (parseTime ''08:00'') (num_mul (Fin 8) (Fin 60)) = Inr ?as"
    by code_simp
  have d: "map ?rule (deliveries ?ds ?os ?rs ?as)
           = [(''P1'', True, Fin 0, Fin (7043911292184167 / 70368744177664)),
              (''O4'', False, Fin 50, Fin 0),
              (''O2'', True, Fin 0, Fin 0)]"
    by code_simp
  have "map (\<lambda>r. (or_orderId r, isOnTime r, penalty r, bonus r)) (orderResults (simulationData res))
        = map ?rule (deliveries ?ds ?os ?rs ?as)"
    using orderResults_onTime_rule[OF s a] .
  then show ?thesis unfolding s d by simp
qed

subsection \<open>Total profit\<close>





subsection \<open>Dropped orders\<close>

lemma find_skip:
  "oid \<noteq> o_id ord \<Longrightarrow>
   find (\<lambda>x. o_id x = oid) (pre @ ord # post) = find (\<lambda>x. o_id x = oid) (pre @ post)"
  by (induction pre) auto

lemma processOrder_skip:
  "oid \<noteq> o_id ord \<Longrightarrow>
   processOrder d aStart (pre @ ord # post) rs oid s = processOrder d aStart (pre @ post) rs oid s"
  by (simp add: processOrder_def find_skip)

lemma processOrders_skip:
  "o_id ord \<notin> set oids \<Longrightarrow>
   processOrders d aStart (pre @ ord # post) rs oids s = processOrders d aStart (pre @ post) rs oids s"
proof (induction oids arbitrary: s)
  case Nil
  show ?case by simp
next
  case (Cons oid oids)
  then have "oid \<noteq> o_id ord" and "o_id ord \<notin> set oids" by auto
  then show ?case using Cons.IH by (simp add: processOrder_skip split: sum.splits)
qed

lemma processAssignment_skip:
  "o_id ord \<notin> set (a_orderIds a) \<Longrightarrow>
   processAssignment ds (pre @ ord # post) rs a acc = processAssignment ds (pre @ post) rs a acc"
  by (cases "find (\<lambda>d. d_id d = a_driverId a) ds")
     (simp_all add: processAssignment_def processOrders_skip)

lemma processAssignments_skip:
  "\<forall>a\<in>set as. o_id ord \<notin> set (a_orderIds a) \<Longrightarrow>
   processAssignments ds (pre @ ord # post) rs as acc = processAssignments ds (pre @ post) rs as acc"
proof (induction as arbitrary: acc)
  case Nil
  show ?case by simp
next
  case (Cons a as)
  then show ?case by (simp add: processAssignment_skip split: sum.splits)
qed

lemma assignedIds_simps:
  "assignedIds [] = []" "assignedIds (a # as) = a_orderIds a @ assignedIds as"
  by (simp_all add: assignedIds_def)

lemma pushOrder_ids:
  "set (assignedIds (pushOrder did oid ct as)) = insert oid (set (assignedIds as))"
  by (induction as) (auto simp: assignedIds_simps)

lemma assignStep_ids:
  assumes "assignStep ds rs st mx x (as, di, ct) = Inr (as', di', ct')"
  shows "set (assignedIds as') \<subseteq> insert (o_id x) (set (assignedIds as))"
  using assms
  by (auto simp: assignStep_def Let_def pushOrder_ids split: if_splits option.splits)

lemma assignLoop_ids:
  assumes "assignLoop ds rs st mx xs (as, di, ct) = Inr (as', di', ct')"
  shows "set (assignedIds as') \<subseteq> set (assignedIds as) \<union> o_id ` set xs"
  using assms
proof (induction xs arbitrary: as di ct)
  case Nil
  then show ?case by simp
next
  case (Cons x xs)
  from Cons.prems obtain as1 di1 ct1
    where s1: "assignStep ds rs st mx x (as, di, ct) = Inr (as1, di1, ct1)"
      and s2: "assignLoop ds rs st mx xs (as1, di1, ct1) = Inr (as', di', ct')"
    by (auto split: sum.splits)
  show ?case using Cons.IH[OF s2] assignStep_ids[OF s1] by auto
qed

lemma assignedIds_member:
  "a \<in> set as \<Longrightarrow> oid \<in> set (a_orderIds a) \<Longrightarrow> oid \<in> set (assignedIds as)"
  by (auto simp: assignedIds_def)

lemma deliveries_orders:
  assumes "(d, ord', route') \<in> set (deliveries ds os rs as)"
  shows "ord' \<in> set os \<and> o_id ord' \<in> set (assignedIds as)"
proof -
  from assms obtain a where a: "a \<in> set as" and x: "(d, ord', route') \<in> set (deliveriesOf ds os rs a)"
    by (auto simp: deliveries_def)
  from x obtain oid where oid: "oid \<in> set (a_orderIds a)"
    and l: "lookupOrder os rs oid = Some (ord', route')"
    by (auto simp: deliveriesOf_def List.map_filter_def split: option.splits)
  from l have f: "find (\<lambda>x. o_id x = oid) os = Some ord'"
    by (auto simp: lookupOrder_def split: option.splits)
  then have "ord' \<in> set os" and "o_id ord' = oid"
    by (auto simp: find_Some_iff)
  then show ?thesis using assignedIds_member[OF a oid] by simp
qed

text \<open>
  Claim C7. Let an order fail the placement check at the state the loop has reached before
  it (the clock plus the duration of its route for the driver in turn is not at most the
  route start time plus the maximum hours times 60, as doubles), in a successful run on
  orders with distinct ids and distinct order numbers. Then the order's id is in no
  driver's assigned orders, no order result carries its order number, and the totals, the
  driver results and the order results of the run are those obtained by continuing the
  assignment loop on the orders after it from the same assignments and clock with the
  driver index advanced by one, and by processing the assignments with the order removed
  from the input.
\<close>

theorem dropped_order_frame:
  assumes run: "simulate drivers (pre @ ord # post) routes startStr maxH = Inr res"
    and before: "assignLoop drivers routes (parseTime startStr) (num_mul maxH (Fin 60)) pre
                   ([], 0, parseTime startStr) = Inr (as1, di, ct)"
    and route: "find (\<lambda>r. r_id r = routeId ord) routes = Some route"
    and fails: "\<not> num_le (num_add ct (duration route (drivers ! (di mod length drivers))))
                        (num_add (parseTime startStr) (num_mul maxH (Fin 60)))"
    and ids: "distinct (map o_id (pre @ ord # post))"
    and names: "distinct (map orderId (pre @ ord # post))"
  shows "(\<forall>da\<in>set (driverAssignments (simulationData res)). o_id ord \<notin> set (assignedOrders da))
       \<and> (\<forall>r\<in>set (orderResults (simulationData res)). or_orderId r \<noteq> orderId ord)
       \<and> (\<exists>as idx clock acc.
             assignLoop drivers routes (parseTime startStr) (num_mul maxH (Fin 60)) post
               (as1, di + 1, ct)
               = Inr (as, idx, clock)
           \<and> processAssignments drivers (pre @ post) routes as initialAcc = Inr acc
           \<and> totalProfit res = acc_totalProfit acc
           \<and> fuelCost res = acc_totalFuelCost acc
           \<and> penalties res = acc_totalPenalties acc
           \<and> bonuses res = acc_totalBonuses acc
           \<and> onTimeDeliveries res = acc_onTimeDeliveries acc
           \<and> totalDeliveries res = acc_totalDeliveries acc
           \<and> driverAssignments (simulationData res) = acc_driverAssignments acc
           \<and> orderResults (simulationData res) = acc_orderResults acc)"
proof -
  let ?st = "parseTime startStr" and ?mx = "num_mul maxH (Fin 60)" and ?os = "pre @ ord # post"
  have ne: "drivers \<noteq> []"
    using run by (auto simp: simulate_def split: if_splits)
  obtain as where as: "assignOrdersToDrivers drivers ?os routes ?st ?mx = Inr as"
    using run by (auto simp: simulate_def Let_def split: if_splits sum.splits)
  obtain acc where acc: "processAssignments drivers ?os routes as initialAcc = Inr acc"
    using run as by (auto simp: simulate_def Let_def split: if_splits sum.splits)
  have fields: "totalProfit res = acc_totalProfit acc" "fuelCost res = acc_totalFuelCost acc"
    "penalties res = acc_totalPenalties acc" "bonuses res = acc_totalBonuses acc"
    "onTimeDeliveries res = acc_onTimeDeliveries acc" "totalDeliveries res = acc_totalDeliveries acc"
    "driverAssignments (simulationData res) = acc_driverAssignments acc"
    "orderResults (simulationData res) = acc_orderResults acc"
    using run as acc by (auto simp: simulate_def Let_def split: if_splits)
  have step: "assignStep drivers routes ?st ?mx ord (as1, di, ct) = Inr (as1, di + 1, ct)"
    using ne fails by (simp add: assignStep_def route Let_def calculateDeliveryTime_duration)
  obtain idx clock where rest: "assignLoop drivers routes ?st ?mx post (as1, di + 1, ct) = Inr (as, idx, clock)"
    using as before step
    by (auto simp: assignOrdersToDrivers_def assignLoop_append split: sum.splits)
  have "set (assignedIds as1) \<subseteq> o_id ` set pre"
    using assignLoop_ids[OF before] by (simp add: assignedIds_simps)
  then have sub: "set (assignedIds as) \<subseteq> o_id ` set pre \<union> o_id ` set post"
    using assignLoop_ids[OF rest] by blast
  have "o_id ord \<notin> o_id ` set pre \<union> o_id ` set post"
    using ids by auto
  then have notin: "o_id ord \<notin> set (assignedIds as)"
    using sub by blast
  then have na: "\<forall>a\<in>set as. o_id ord \<notin> set (a_orderIds a)"
    using assignedIds_member by blast
  have acc2: "processAssignments drivers (pre @ post) routes as initialAcc = Inr acc"
    using processAssignments_skip[OF na] acc by simp
  have A: "\<forall>da\<in>set (driverAssignments (simulationData res)). o_id ord \<notin> set (assignedOrders da)"
  proof
    fix da assume "da \<in> set (driverAssignments (simulationData res))"
    then have "assignedOrders da \<in> set (map assignedOrders (driverAssignments (simulationData res)))"
      by simp
    then have "assignedOrders da \<in> set (map a_orderIds as)"
      using simulate_totals(4)[OF run as] by simp
    then show "o_id ord \<notin> set (assignedOrders da)" using na by auto
  qed
  have B: "\<forall>r\<in>set (orderResults (simulationData res)). or_orderId r \<noteq> orderId ord"
  proof
    fix r assume "r \<in> set (orderResults (simulationData res))"
    then have "resultView r \<in> set (map resultView (orderResults (simulationData res)))" by simp
    then have "resultView r \<in> set (map spec_result (deliveries drivers ?os routes as))"
      using simulate_totals(3)[OF run as] by simp
    then obtain d ord' route' where x: "(d, ord', route') \<in> set (deliveries drivers ?os routes as)"
      and v: "resultView r = spec_result (d, ord', route')"
      by auto
    from v have n: "or_orderId r = orderId ord'" by (simp add: resultView_def spec_result_def)
    from deliveries_orders[OF x] have m: "ord' \<in> set ?os" and i: "o_id ord' \<in> set (assignedIds as)"
      by simp_all
    from i notin have "ord' \<noteq> ord" by auto
    moreover have "inj_on orderId (set ?os)" using names by (simp only: distinct_map)
    moreover have "ord \<in> set ?os" by simp
    ultimately have "orderId ord' \<noteq> orderId ord" using m by (meson inj_onD)
    then show "or_orderId r \<noteq> orderId ord" using n by simp
  qed
  show ?thesis using A B rest acc2 fields by blast
qed

text \<open>
  One driver, an hour from 08:00, and the four orders on the routes of 3.6, 31.2, 25.2
  and 20 minutes: after two orders the clock is the double 514.8000000000001, and the
  third order, which would end at 540.0000000000001, fails the check.
\<close>

theorem dropped_order_frame_witness:
  "map_sum id (\<lambda>res. (list_ex (\<lambda>da. 3 \<in> set (assignedOrders da)) (driverAssignments (simulationData res)),
                       list_ex (\<lambda>r. or_orderId r = ''T3'') (orderResults (simulationData res))))
     (simulate [scenarioD1] ([tightO1, tightO2] @ tightO3 # [tightO4]) tightRoutes ''08:00'' (Fin 1))
   = Inr (False, False)"
proof -
  let ?ds = "[scenarioD1]" and ?rs = "tightRoutes"
  let ?os = "[tightO1, tightO2] @ tightO3 # [tightO4]"
  let ?as1 = "[\<lparr>a_driverId = 1, a_orderIds = [1, 2], a_startTime = Fin 480\<rparr>]"
  let ?ct = "Fin (4528228687832679 / 8796093022208)"
  have "\<not> isl (simulate ?ds ?os ?rs ''08:00'' (Fin 1))" by code_simp
  then obtain res where s: "simulate ?ds ?os ?rs ''08:00'' (Fin 1) = Inr res"
    by (cases "simulate ?ds ?os ?rs ''08:00'' (Fin 1)") auto
  have b: "assignLoop ?ds ?rs (parseTime ''08:00'') (num_mul (Fin 1) (Fin 60)) [tightO1, tightO2]
             ([], 0, parseTime ''08:00'')
           = Inr (?as1, 2, ?ct)"
    by code_simp
  have r: "find (\<lambda>r. r_id r = routeId tightO3) ?rs = Some (tightRoutes ! 2)"
    by code_simp
  have f: "\<not> num_le (num_add ?ct (duration (tightRoutes ! 2) (?ds ! (2 mod length ?ds))))
                      (num_add (parseTime ''08:00'') (num_mul (Fin 1) (Fin 60)))"
    by code_simp
  have i: "distinct (map o_id ?os)" by code_simp
  have n: "distinct (map orderId ?os)" by code_simp
  have o3: "o_id tightO3 = 3" "orderId tightO3 = ''T3''" by (simp_all add: tightO3_def)
  show ?thesis
    using dropped_order_frame[OF s b r f i n] unfolding s
    by (simp add: list_ex_iff o3)
qed

end
